theory Spec2Isabelle
  imports Main "HOL-Library.Sublist"
begin

section \<open>Strings and POSIX paths\<close>

text \<open>
  Python strings are modelled as \<open>string\<close> (code points below 256). The functions of
  this section follow the Python operations that \<^verbatim>\<open>process_landsat.py\<close> applies to
  file names and object keys: \<^verbatim>\<open>str.split('/')\<close>, \<^verbatim>\<open>str.endswith\<close>, \<^verbatim>\<open>in\<close>,
  \<^verbatim>\<open>os.path.join\<close>, \<^verbatim>\<open>os.path.basename\<close> and \<^verbatim>\<open>os.path.dirname\<close> (posixpath).
\<close>

abbreviation slash :: char where
  "slash \<equiv> CHR ''/''"

text \<open>\<^verbatim>\<open>s.split('/')\<close>: never the empty list, \<^verbatim>\<open>''.split('/') == ['']\<close>.\<close>

fun split_slash :: "string \<Rightarrow> string list" where
  "split_slash [] = [[]]"
| "split_slash (c # cs) =
     (if c = slash then [] # split_slash cs
      else (case split_slash cs of
              [] \<Rightarrow> [[c]]
            | p # ps \<Rightarrow> (c # p) # ps))"

definition endswith :: "string \<Rightarrow> string \<Rightarrow> bool" where
  "endswith s suf = suffix suf s"

text \<open>\<^verbatim>\<open>sub in s\<close> on strings: \<open>sub\<close> occurs in \<open>s\<close> as a contiguous block.\<close>

definition contains :: "string \<Rightarrow> string \<Rightarrow> bool" where
  "contains sub s = sublist sub s"

text \<open>
  \<^verbatim>\<open>posixpath.join(a, b)\<close>: an absolute \<open>b\<close> replaces the path, an empty path or one that
  ends in a slash takes \<open>b\<close> as it is, otherwise a slash is put between.
\<close>

definition join2 :: "string \<Rightarrow> string \<Rightarrow> string" where
  "join2 a b =
     (if prefix ''/'' b then b
      else if a = [] \<or> endswith a ''/'' then a @ b
      else a @ ''/'' @ b)"

text \<open>\<^verbatim>\<open>posixpath.join(a, *p)\<close> on the argument list \<open>a # p\<close>.\<close>

definition pjoin :: "string list \<Rightarrow> string" where
  "pjoin args = (case args of [] \<Rightarrow> [] | a # p \<Rightarrow> foldl join2 a p)"

text \<open>\<^verbatim>\<open>basename(p) = p[p.rfind('/') + 1:]\<close>.\<close>

definition basename :: "string \<Rightarrow> string" where
  "basename p = rev (takeWhile (\<lambda>c. c \<noteq> slash) (rev p))"

text \<open>
  \<^verbatim>\<open>dirname(p)\<close>: the part up to and including the last slash, with the trailing
  slashes removed unless it consists of slashes only.
\<close>

definition dirname :: "string \<Rightarrow> string" where
  "dirname p =
     (let head = rev (dropWhile (\<lambda>c. c \<noteq> slash) (rev p))
      in if head \<noteq> [] \<and> (\<exists>c \<in> set head. c \<noteq> slash)
         then rev (dropWhile (\<lambda>c. c = slash) (rev head))
         else head)"

section \<open>Output names of the transform\<close>

text \<open>
  \<^verbatim>\<open>check_dir(fname)\<close> keeps the last two slash-separated components of the input
  path (\<^verbatim>\<open>file_name[-2:]\<close>) and joins them again.
\<close>

definition check_dir :: "string \<Rightarrow> string" where
  "check_dir fname =
     (let file_name = split_slash fname
      in pjoin (drop (length file_name - 2) file_name))"

text \<open>
  The local file system, as far as \<^verbatim>\<open>getfilename\<close> sees it: the predicate of the paths
  that exist. \<^verbatim>\<open>os.makedirs(d)\<close> creates \<open>d\<close> and the directories above it.
\<close>

type_synonym fs = "string \<Rightarrow> bool"

definition makedirs :: "fs \<Rightarrow> string \<Rightarrow> fs" where
  "makedirs ex d = (\<lambda>p. ex p \<or> p = d \<or> prefix (p @ ''/'') d)"

text \<open>
  \<^verbatim>\<open>getfilename(fname, outdir)\<close>: the output name, whether the directory of the output
  had to be created (\<open>Some\<close> of it), and the file system afterwards.
\<close>

definition getfilename :: "fs \<Rightarrow> string \<Rightarrow> string \<Rightarrow> string \<times> string option \<times> fs" where
  "getfilename ex fname outdir =
     (let rel_path = check_dir fname;
          out_fname = join2 outdir rel_path
      in if \<not> ex (dirname out_fname)
         then (out_fname, Some (dirname out_fname), makedirs ex (dirname out_fname))
         else (out_fname, None, ex))"

text \<open>
  The qualifying pattern of the walk:
  \<^verbatim>\<open>fname.endswith('.tif') and ('_sr_' in fname or '_qa' in fname)\<close>.
\<close>

definition qualifies :: "string \<Rightarrow> bool" where
  "qualifies fname \<longleftrightarrow>
     endswith fname ''.tif'' \<and> (contains ''_sr_'' fname \<or> contains ''_qa'' fname)"

section \<open>The descriptor: namespace stripping and field extraction\<close>

text \<open>
  \<^verbatim>\<open>re.sub(r'\sxmlns="[^"]+"', '', xmlstring, count=1)\<close> removes the leftmost match of the
  pattern: one white-space character, the text \<^verbatim>\<open>xmlns="\<close>, one or more characters other
  than the double quote, and a double quote. \<^verbatim>\<open>\s\<close> on a \<^verbatim>\<open>str\<close> pattern is Unicode white
  space; below code point 256 these are the characters listed in \<open>is_space\<close>.
\<close>

abbreviation dquote :: char where
  "dquote \<equiv> CHR 0x22"

definition is_space :: "char \<Rightarrow> bool" where
  "is_space c \<longleftrightarrow>
     (of_char c :: nat) \<in> {9, 10, 11, 12, 13, 28, 29, 30, 31, 32, 133, 160}"

definition xmlns_eq :: string where
  "xmlns_eq = ''xmlns='' @ [dquote]"

text \<open>
  A match of the pattern at the start of the text: \<open>Some\<close> of what follows the match.
  \<^verbatim>\<open>[^"]+\<close> takes every character up to the next double quote, and no shorter run is
  followed by a double quote, so there is at most one way to match at a position.
\<close>

definition match_xmlns :: "string \<Rightarrow> string option" where
  "match_xmlns s =
     (case s of
        [] \<Rightarrow> None
      | c # r \<Rightarrow>
          if is_space c \<and> prefix xmlns_eq r
          then (let v = drop (length xmlns_eq) r;
                    uri = takeWhile (\<lambda>x. x \<noteq> dquote) v;
                    rest = dropWhile (\<lambda>x. x \<noteq> dquote) v
                in if uri \<noteq> [] \<and> rest \<noteq> [] then Some (tl rest) else None)
          else None)"

fun re_sub_xmlns :: "string \<Rightarrow> string" where
  "re_sub_xmlns [] = []"
| "re_sub_xmlns (c # cs) =
     (case match_xmlns (c # cs) of
        Some rest \<Rightarrow> rest
      | None \<Rightarrow> c # re_sub_xmlns cs)"

text \<open>
  The element tree that \<^verbatim>\<open>ElementTree.fromstring\<close> returns: tag, attributes, text
  (\<open>etext\<close>, \<open>None\<close> for Python's \<^verbatim>\<open>None\<close>) and children in document order.
\<close>

datatype element =
  Element (tag: string) (attrib: "(string \<times> string) list") (etext: "string option")
    (children: "element list")

text \<open>\<^verbatim>\<open>doc.find('.//name')\<close>: the first element below \<open>doc\<close>, in document order.\<close>

fun descendants :: "element \<Rightarrow> element list" where
  "descendants (Element t a x cs) = concat (map (\<lambda>c. c # descendants c) cs)"

definition find_descendant :: "string \<Rightarrow> element \<Rightarrow> element option" where
  "find_descendant name doc = find (\<lambda>e. tag e = name) (descendants doc)"

text \<open>\<^verbatim>\<open>doc.find('name')\<close>: the first child of that tag.\<close>

definition find_child :: "string \<Rightarrow> element \<Rightarrow> element option" where
  "find_child name doc = find (\<lambda>e. tag e = name) (children doc)"

text \<open>The exceptions of Python that the program can raise, by class.\<close>

datatype exn =
  TypeError | AttributeError | KeyError | ValueError | ParseError | ClientError
  | TransformError | FileNotFoundError

record date =
  year :: nat
  month :: nat
  day :: nat

record metadata =
  datetime :: date
  satellite :: "string option"
  path :: string
  row :: string

section \<open>The world outside the program\<close>

text \<open>
  A queue message (\<^verbatim>\<open>message.body\<close>; the receipt tells two messages apart) and the
  three answers of \<^verbatim>\<open>s3r.Object(OUT_BUCKET, key).load()\<close>: the object is there, a
  \<^verbatim>\<open>ClientError\<close> with code 404, any other \<^verbatim>\<open>ClientError\<close>.
\<close>

datatype message = Message (receipt: nat) (body: string)

datatype head_result = Found | NotFound404 | OtherError

text \<open>
  Everything \<^verbatim>\<open>process_one\<close> asks of the queue, the object store, the file system and the
  libraries is a field of the world. A call that can raise has a result that says so
  (\<open>False\<close>, \<open>None\<close>): \<open>download_file\<close>, \<open>cog_translate\<close> and \<open>put_object\<close> raise on
  \<open>False\<close>, \<open>tar_ok\<close> is the exit status of \<^verbatim>\<open>tar -xzvf\<close> being zero, \<open>fromstring\<close> and
  \<open>strptime\<close> raise on \<open>None\<close>. \<open>listdir\<close>, \<open>read_file\<close> and \<open>walk\<close> are the download
  workspace after unpacking; \<open>walk\<close> gives the directory and the file names of each
  step of \<^verbatim>\<open>os.walk\<close>; \<open>path_exists\<close> is the file system when the transform starts.
  Logging, \<^verbatim>\<open>open\<close> and \<^verbatim>\<open>message.delete\<close> on a message are taken to succeed.
\<close>

record world =
  receive_messages :: "message list"
  isfile :: "string \<Rightarrow> bool"
  download_file :: "string \<Rightarrow> string \<Rightarrow> bool"
  tar_ok :: "string \<Rightarrow> bool"
  listdir :: "string \<Rightarrow> string list"
  read_file :: "string \<Rightarrow> string"
  fromstring :: "string \<Rightarrow> element option"
  strptime :: "string \<Rightarrow> date option"
  load_object :: "string \<Rightarrow> head_result"
  abspath :: "string \<Rightarrow> string"
  walk :: "string \<Rightarrow> (string \<times> string list) list"
  path_exists :: fs
  cog_translate :: "string \<Rightarrow> string \<Rightarrow> bool"
  put_object :: "string \<Rightarrow> bool"

text \<open>The settings read from the environment that the model uses.\<close>

record config =
  OUT_PATH :: string
  WORKDIR :: string
  OUTDIR :: string

text \<open>
  \<^verbatim>\<open>get_metadata(local_file)\<close>. The order of the checks is the order in which Python
  evaluates the statements and the dictionary display: the three \<^verbatim>\<open>find\<close> lines, then
  \<^verbatim>\<open>strptime\<close>, then the two attribute look-ups.
\<close>

definition get_metadata :: "world \<Rightarrow> string \<Rightarrow> exn + metadata" where
  "get_metadata w local_file =
     (let xmlstring = re_sub_xmlns (read_file w local_file) in
      case fromstring w xmlstring of
        None \<Rightarrow> Inl ParseError
      | Some doc \<Rightarrow>
     (case find_descendant ''satellite'' doc of
        None \<Rightarrow> Inl AttributeError
      | Some sat \<Rightarrow>
     (case find_descendant ''acquisition_date'' doc of
        None \<Rightarrow> Inl AttributeError
      | Some acq \<Rightarrow>
     (case find_child ''global_metadata'' doc of
        None \<Rightarrow> Inl AttributeError
      | Some glob \<Rightarrow>
     (case find_child ''wrs'' glob of
        None \<Rightarrow> Inl AttributeError
      | Some wrs \<Rightarrow>
     (case etext acq of
        None \<Rightarrow> Inl TypeError
      | Some acquisition_date \<Rightarrow>
     (case strptime w acquisition_date of
        None \<Rightarrow> Inl ValueError
      | Some dt \<Rightarrow>
     (case map_of (attrib wrs) ''path'' of
        None \<Rightarrow> Inl KeyError
      | Some p \<Rightarrow>
     (case map_of (attrib wrs) ''row'' of
        None \<Rightarrow> Inl KeyError
      | Some r \<Rightarrow>
          Inr \<lparr>datetime = dt, satellite = etext sat, path = p, row = r\<rparr>)))))))))"

text \<open>
  \<^verbatim>\<open>get_xmlfile\<close>: the first name of the listing that contains \<^verbatim>\<open>.xml\<close>; the function
  falls off its end when there is none, which returns \<^verbatim>\<open>None\<close>.
\<close>

definition get_xmlfile :: "string list \<Rightarrow> string option" where
  "get_xmlfile files = find (\<lambda>f. contains ''.xml'' f) files"

section \<open>The output key prefix\<close>

definition digit :: "nat \<Rightarrow> char" where
  "digit n = ''0123456789'' ! (n mod 10)"

definition pad2 :: "nat \<Rightarrow> string" where
  "pad2 n = [digit (n div 10), digit n]"

text \<open>The decimal numeral of a number, without padding.\<close>

fun decimal :: "nat \<Rightarrow> string" where
  "decimal n = (if n < 10 then [digit n] else decimal (n div 10) @ [digit n])"

declare decimal.simps [simp del]

text \<open>
  \<^verbatim>\<open>d.strftime("%Y/%m/%d")\<close>: the C library writes the year as its decimal numeral and
  does not pad it (\<^verbatim>\<open>999\<close> for the year 999), so the year has four digits from 1000
  on; month and day are padded to two digits. A \<^verbatim>\<open>datetime\<close> has a year from 1 to 9999,
  a month from 1 to 12 and a day from 1 to 31.
\<close>

definition strftime_ymd :: "date \<Rightarrow> string" where
  "strftime_ymd d = decimal (year d) @ ''/'' @ pad2 (month d) @ ''/'' @ pad2 (day d)"

text \<open>What \<^verbatim>\<open>str.format\<close> writes for a value that is a string or \<^verbatim>\<open>None\<close>.\<close>

definition format_str :: "string option \<Rightarrow> string" where
  "format_str v = (case v of None \<Rightarrow> ''None'' | Some s \<Rightarrow> s)"

text \<open>
  \<^verbatim>\<open>'{directory}/{satellite}/{path}/{row}/{date}'.format(...)\<close> of \<^verbatim>\<open>process_one\<close>, with
  \<^verbatim>\<open>OUT_PATH\<close> as the first argument.
\<close>

definition out_file_path :: "string \<Rightarrow> metadata \<Rightarrow> string" where
  "out_file_path directory m =
     directory @ ''/'' @ format_str (satellite m) @ ''/'' @ path m @ ''/'' @ row m
       @ ''/'' @ strftime_ymd (datetime m)"

section \<open>One work item\<close>

text \<open>
  The calls of \<^verbatim>\<open>process_one\<close> that reach outside the process, in the order in which
  they happen, and three of its log lines: the error \<^verbatim>\<open>Only processed {} files\<close> of line
  287 (\<open>LogIncomplete\<close>, with the number) and the two closing lines. \<open>PutObject key file\<close>
  is \<^verbatim>\<open>put_object(Key=key, Body=open(file, 'rb'))\<close>; \<open>DeleteFiles d\<close> is the call
  \<^verbatim>\<open>delete_files(d)\<close>.
\<close>

datatype event =
    Download string string
  | Untar string
  | LoadObject string
  | Makedirs string
  | CogTranslate string string
  | PutObject string string
  | DeleteFiles string
  | DeleteMessage message
  | LogIncomplete nat
  | LogFinished
  | LogFailed string

definition test_key :: string where
  "test_key =
     ''from-tony/alex1129/espa-tonybutzer@gmail.com-11292018-115452-258/LE072110482001051101T1-SC20181129141358.tar.gz''"

text \<open>
  Lines 192 to 209: the message kept and the key to process, or \<open>None\<close> for the early
  return.
\<close>

definition next_item :: "world \<Rightarrow> bool \<Rightarrow> (message option \<times> string) option" where
  "next_item w test =
     (let messages = receive_messages w in
      if length messages > 0 \<and> \<not> test
      then Some (Some (hd messages), body (hd messages))
      else if test then Some (None, test_key)
      else None)"

definition local_name :: "string \<Rightarrow> string" where
  "local_name file_to_process = last (split_slash file_to_process)"

text \<open>Lines 212 to 220: the download, unless the archive is already there.\<close>

definition fetch :: "config \<Rightarrow> world \<Rightarrow> string \<Rightarrow> event list \<times> exn option" where
  "fetch cfg w file_to_process =
     (let local_file_full = join2 (WORKDIR cfg) (local_name file_to_process) in
      if \<not> isfile w local_file_full
      then ([Download file_to_process local_file_full],
            if download_file w file_to_process local_file_full then None
            else Some ClientError)
      else ([], None))"

definition check_processed :: "world \<Rightarrow> string \<Rightarrow> exn + bool" where
  "check_processed w key =
     (case load_object w key of
        Found \<Rightarrow> Inr True
      | NotFound404 \<Rightarrow> Inr False
      | OtherError \<Rightarrow> Inl ClientError)"

text \<open>
  Lines 232 to 241: the descriptor file, the output key prefix and the key of the
  descriptor. \<^verbatim>\<open>os.path.join(WORKDIR, None)\<close> raises \<^verbatim>\<open>TypeError\<close>.
\<close>

definition describe :: "config \<Rightarrow> world \<Rightarrow> exn + (string \<times> string \<times> string)" where
  "describe cfg w =
     (case get_xmlfile (listdir w (WORKDIR cfg)) of
        None \<Rightarrow> Inl TypeError
      | Some f \<Rightarrow>
          (let xml_file = join2 (WORKDIR cfg) f in
           case get_metadata w xml_file of
             Inl e \<Rightarrow> Inl e
           | Inr m \<Rightarrow>
               (let out_path = out_file_path (OUT_PATH cfg) m
                in Inr (xml_file, out_path, out_path @ ''/'' @ basename xml_file))))"

text \<open>
  Lines 254 to 271, over the files of the walk in its order: the events and the list
  \<^verbatim>\<open>out_files\<close>, or the exception of \<^verbatim>\<open>cog_translate\<close>.
\<close>

definition walk_files :: "(string \<times> string list) list \<Rightarrow> (string \<times> string) list" where
  "walk_files steps = concat (map (\<lambda>(p, files). map (\<lambda>f. (p, f)) files) steps)"

fun transform_loop ::
  "world \<Rightarrow> string \<Rightarrow> fs \<Rightarrow> (string \<times> string) list \<Rightarrow> event list \<times> (exn + string list)" where
  "transform_loop w output_dir ex [] = ([], Inr [])"
| "transform_loop w output_dir ex ((p, fname) # rest) =
     (if qualifies fname then
        (let in_filename = join2 p fname in
         case getfilename ex in_filename output_dir of
           (out_filename, made, ex') \<Rightarrow>
             (let evs = (case made of None \<Rightarrow> [] | Some d \<Rightarrow> [Makedirs d])
                          @ [CogTranslate in_filename out_filename]
              in if cog_translate w in_filename out_filename
                 then (case transform_loop w output_dir ex' rest of
                         (evs', Inl e) \<Rightarrow> (evs @ evs', Inl e)
                       | (evs', Inr out_files) \<Rightarrow> (evs @ evs', Inr (out_filename # out_files)))
                 else (evs, Inl TransformError)))
      else transform_loop w output_dir ex rest)"

definition transform :: "config \<Rightarrow> world \<Rightarrow> event list \<times> (exn + string list)" where
  "transform cfg w =
     (let gtiff_path = abspath w (WORKDIR cfg);
          output_dir = abspath w (OUTDIR cfg)
      in transform_loop w output_dir (path_exists w) (walk_files (walk w gtiff_path)))"

text \<open>Lines 276 to 280: one \<^verbatim>\<open>put_object\<close> for each output, in the order of the list.\<close>

fun upload_data :: "world \<Rightarrow> string \<Rightarrow> string list \<Rightarrow> event list \<times> exn option" where
  "upload_data w out_path [] = ([], None)"
| "upload_data w out_path (out_file # rest) =
     (let key = out_path @ ''/'' @ basename out_file in
      if put_object w key
      then (case upload_data w out_path rest of (evs, r) \<Rightarrow> (PutObject key out_file # evs, r))
      else ([PutObject key out_file], Some ClientError))"

text \<open>Lines 276 to 285: the data, then the descriptor.\<close>

definition publish ::
  "world \<Rightarrow> string \<Rightarrow> string \<Rightarrow> string \<Rightarrow> string list \<Rightarrow> event list \<times> exn option" where
  "publish w out_path xml_file xml_key out_files =
     (case upload_data w out_path out_files of
        (evs, Some e) \<Rightarrow> (evs, Some e)
      | (evs, None) \<Rightarrow>
          (evs @ [PutObject xml_key xml_file],
           if put_object w xml_key then None else Some ClientError))"

text \<open>
  Lines 231 to 292, entered when unpacking did not fail: the events and the value of
  \<^verbatim>\<open>process_failed\<close> afterwards, or the exception that leaves \<^verbatim>\<open>process_one\<close>.
\<close>

definition handle_item :: "config \<Rightarrow> world \<Rightarrow> bool \<Rightarrow> event list \<times> (exn + bool)" where
  "handle_item cfg w overwrite =
     (case describe cfg w of
        Inl e \<Rightarrow> ([], Inl e)
      | Inr (xml_file, out_path, xml_key) \<Rightarrow>
     (case check_processed w xml_key of
        Inl e \<Rightarrow> ([LoadObject xml_key], Inl e)
      | Inr processed_already \<Rightarrow>
          if overwrite \<or> \<not> processed_already then
            (case transform cfg w of
               (tevs, Inl e) \<Rightarrow> (LoadObject xml_key # tevs, Inl e)
             | (tevs, Inr out_files) \<Rightarrow>
                 if length out_files \<ge> 7 then
                   (case publish w out_path xml_file xml_key out_files of
                      (pevs, Some e) \<Rightarrow> (LoadObject xml_key # tevs @ pevs, Inl e)
                    | (pevs, None) \<Rightarrow> (LoadObject xml_key # tevs @ pevs, Inr False))
                 else (LoadObject xml_key # tevs @ [LogIncomplete (length out_files)],
                       Inr True))
          else ([LoadObject xml_key], Inr False)))"

text \<open>
  The directories that exist when the cleanup starts: those of the start and those that
  the \<^verbatim>\<open>makedirs\<close> calls of the run have made. Nothing before the cleanup removes one.
\<close>

fun fs_after :: "fs \<Rightarrow> event list \<Rightarrow> fs" where
  "fs_after ex [] = ex"
| "fs_after ex (Makedirs d # evs) = fs_after (makedirs ex d) evs"
| "fs_after ex (e # evs) = fs_after ex evs"

text \<open>
  \<^verbatim>\<open>delete_files(file_path)\<close> starts with \<^verbatim>\<open>os.listdir(file_path)\<close>, which raises
  \<^verbatim>\<open>FileNotFoundError\<close> when the directory is not there; otherwise everything below
  the directory is removed. The result is the exception, if any, and the file system
  afterwards. The path is looked up as \<^verbatim>\<open>os.path.abspath\<close> gives it.
\<close>

definition delete_files :: "world \<Rightarrow> fs \<Rightarrow> string \<Rightarrow> exn option \<times> fs" where
  "delete_files w ex file_path =
     (let d = abspath w file_path in
      if ex d then (None, (\<lambda>p. ex p \<and> \<not> prefix (d @ ''/'') p))
      else (Some FileNotFoundError, ex))"

text \<open>Lines 295 to 298: the two calls of \<^verbatim>\<open>delete_files\<close>, when \<open>cleanup\<close> is set.\<close>

definition cleanup_dirs :: "config \<Rightarrow> world \<Rightarrow> fs \<Rightarrow> bool \<Rightarrow> event list \<times> exn option" where
  "cleanup_dirs cfg w ex cleanup =
     (if cleanup then
        (case delete_files w ex (WORKDIR cfg) of
           (Some e, _) \<Rightarrow> ([DeleteFiles (WORKDIR cfg)], Some e)
         | (None, ex') \<Rightarrow>
             ([DeleteFiles (WORKDIR cfg), DeleteFiles (OUTDIR cfg)],
              fst (delete_files w ex' (OUTDIR cfg))))
      else ([], None))"

text \<open>
  Lines 295 to 307: the optional cleanup, the closing log line, and
  \<^verbatim>\<open>message.delete()\<close>, which raises \<^verbatim>\<open>AttributeError\<close> when \<^verbatim>\<open>message\<close> is \<^verbatim>\<open>None\<close>.
  An exception of the cleanup leaves \<^verbatim>\<open>process_one\<close> before the log line.
\<close>

definition finish ::
  "config \<Rightarrow> world \<Rightarrow> fs \<Rightarrow> bool \<Rightarrow> message option \<Rightarrow> string \<Rightarrow> bool
     \<Rightarrow> event list \<times> (exn + unit)" where
  "finish cfg w ex cleanup message local_file process_failed =
     (case cleanup_dirs cfg w ex cleanup of
        (cevs, Some e) \<Rightarrow> (cevs, Inl e)
      | (cevs, None) \<Rightarrow>
          (let evs = cevs @ [if \<not> process_failed then LogFinished else LogFailed local_file]
           in case message of
                None \<Rightarrow> (evs, Inl AttributeError)
              | Some m \<Rightarrow> (evs @ [DeleteMessage m], Inr ())))"

text \<open>
  \<^verbatim>\<open>process_one(overwrite, cleanup, test)\<close>: the trace of events and how the call ends,
  \<open>Inr ()\<close> for a return and \<open>Inl e\<close> for an exception that reaches the caller. A
  \<^verbatim>\<open>RuntimeError\<close> of \<^verbatim>\<open>run_command\<close> is caught and sets \<^verbatim>\<open>process_failed\<close>.
\<close>

definition process_one ::
  "config \<Rightarrow> world \<Rightarrow> bool \<Rightarrow> bool \<Rightarrow> bool \<Rightarrow> event list \<times> (exn + unit)" where
  "process_one cfg w overwrite cleanup test =
     (case next_item w test of
        None \<Rightarrow> ([], Inr ())
      | Some (message, file_to_process) \<Rightarrow>
          (let local_file = local_name file_to_process in
           case fetch cfg w file_to_process of
             (ev1, Some e) \<Rightarrow> (ev1, Inl e)
           | (ev1, None) \<Rightarrow>
               (case (if tar_ok w local_file then handle_item cfg w overwrite
                      else ([], Inr True)) of
                  (ev2, Inl e) \<Rightarrow> (ev1 @ Untar local_file # ev2, Inl e)
                | (ev2, Inr process_failed) \<Rightarrow>
                    (case finish cfg w (fs_after (path_exists w) ev2) cleanup message
                            local_file process_failed of
                       (ev3, r) \<Rightarrow> (ev1 @ Untar local_file # ev2 @ ev3, r)))))"

text \<open>What a trace says about uploads, transforms and acknowledgements.\<close>

definition uploads :: "event list \<Rightarrow> (string \<times> string) list" where
  "uploads tr = concat (map (\<lambda>e. case e of PutObject k f \<Rightarrow> [(k, f)] | _ \<Rightarrow> []) tr)"

definition transforms :: "event list \<Rightarrow> (string \<times> string) list" where
  "transforms tr = concat (map (\<lambda>e. case e of CogTranslate i out \<Rightarrow> [(i, out)] | _ \<Rightarrow> []) tr)"

definition deleted :: "event list \<Rightarrow> message list" where
  "deleted tr = concat (map (\<lambda>e. case e of DeleteMessage m \<Rightarrow> [m] | _ \<Rightarrow> []) tr)"

section \<open>The queue refill utility\<close>

text \<open>
  The answers of \<^verbatim>\<open>list_objects_v2\<close> to the loop of \<^verbatim>\<open>get_matching_s3_keys\<close>: each has
  its \<^verbatim>\<open>Contents\<close> (\<open>None\<close> when the answer has no such entry) and either carries a
  \<^verbatim>\<open>NextContinuationToken\<close>, with the answers to the calls that follow, or is the
  last one.
\<close>

datatype listing =
    LastPage "string list option"
  | MorePages "string list option" listing

text \<open>What a Python generator does when asked for its next value.\<close>

datatype 'a gen = Done | Yield 'a "'a gen" | Raise exn

fun yield_matching :: "string list \<Rightarrow> string \<Rightarrow> string gen \<Rightarrow> string gen" where
  "yield_matching [] suf k = k"
| "yield_matching (key # keys) suf k =
     (if endswith key suf then Yield key (yield_matching keys suf k)
      else yield_matching keys suf k)"

fun get_matching_s3_keys :: "listing \<Rightarrow> string \<Rightarrow> string gen" where
  "get_matching_s3_keys (LastPage c) suf =
     (case c of None \<Rightarrow> Raise KeyError | Some keys \<Rightarrow> yield_matching keys suf Done)"
| "get_matching_s3_keys (MorePages c rest) suf =
     (case c of
        None \<Rightarrow> Raise KeyError
      | Some keys \<Rightarrow> yield_matching keys suf (get_matching_s3_keys rest suf))"

text \<open>
  The loop of \<^verbatim>\<open>get_items\<close>: the message bodies sent, in order, and the exception if the
  generator raised. \<^verbatim>\<open>filter and filter in item\<close> is false for \<^verbatim>\<open>None\<close> and for the
  empty string.
\<close>

fun get_items_loop ::
  "int \<Rightarrow> string option \<Rightarrow> int \<Rightarrow> string gen \<Rightarrow> string list \<times> exn option" where
  "get_items_loop LIMIT flt count Done = ([], None)"
| "get_items_loop LIMIT flt count (Raise e) = ([], Some e)"
| "get_items_loop LIMIT flt count (Yield item items) =
     (if (case flt of None \<Rightarrow> False | Some f \<Rightarrow> f \<noteq> [] \<and> contains f item) then
        (if count + 1 \<ge> LIMIT then ([], None)
         else (case get_items_loop LIMIT flt (count + 1) items of
                 (sent, r) \<Rightarrow> (item # sent, r)))
      else get_items_loop LIMIT flt count items)"

definition get_items :: "listing \<Rightarrow> int \<Rightarrow> string option \<Rightarrow> string list \<times> exn option" where
  "get_items bucket_listing LIMIT flt =
     get_items_loop LIMIT flt 0 (get_matching_s3_keys bucket_listing [])"

section \<open>Reading the date of a key\<close>



section \<open>The mirrored path of the specification\<close>

text \<open>
  The specification's words for the output of the transform: the path of the input
  file relative to the download workspace, under the transform workspace. For an
  input \<open>root @ ''/'' @ rel\<close> this is \<open>rel\<close> joined to the output directory.
\<close>

definition mirrored_path :: "string \<Rightarrow> string \<Rightarrow> string \<Rightarrow> string" where
  "mirrored_path root output_dir in_filename =
     join2 output_dir (drop (length root + 1) in_filename)"

section \<open>A concrete scene\<close>

text \<open>
  One archive as the program meets it: a queue with one message, a download workspace
  that holds the archive, the descriptor, seven qualifying rasters and one that does
  not qualify, and a store that has no object yet and accepts every upload. The
  download workspace exists; the transform workspace has not been made yet.
\<close>

definition quoted :: "string \<Rightarrow> string" where
  "quoted s = dquote # s @ [dquote]"

definition squoted :: "string \<Rightarrow> string" where
  "squoted s = CHR 0x27 # s @ [CHR 0x27]"

definition descriptor_text :: "string \<Rightarrow> string" where
  "descriptor_text ns =
     ''<espa_metadata'' @ ns @ ''><global_metadata><satellite>LE07</satellite>''
     @ ''<acquisition_date>2001-05-11</acquisition_date><wrs path='' @ quoted ''021''
     @ '' row='' @ quoted ''048'' @ ''/></global_metadata></espa_metadata>''"

definition espa_uri :: string where
  "espa_uri = ''http://espa.cr.usgs.gov/v2''"

text \<open>The tree of the descriptor, with every tag prefixed by \<open>q\<close>.\<close>

definition descriptor_tree :: "string \<Rightarrow> element" where
  "descriptor_tree q =
     Element (q @ ''espa_metadata'') [] None
       [Element (q @ ''global_metadata'') [] None
          [Element (q @ ''satellite'') [] (Some ''LE07'') [],
           Element (q @ ''acquisition_date'') [] (Some ''2001-05-11'') [],
           Element (q @ ''wrs'') [(''path'', ''021''), (''row'', ''048'')] None []]]"

text \<open>
  What \<^verbatim>\<open>ElementTree.fromstring\<close> returns on the three texts of the descriptor: plain
  tags without a namespace declaration, tags qualified by \<^verbatim>\<open>{uri}\<close> when the root
  declares a default namespace, in double or in single quotes.
\<close>

definition scene_fromstring :: "string \<Rightarrow> element option" where
  "scene_fromstring s =
     (if s = descriptor_text [] then Some (descriptor_tree [])
      else if s = descriptor_text ('' xmlns='' @ quoted espa_uri)
              \<or> s = descriptor_text ('' xmlns='' @ squoted espa_uri)
      then Some (descriptor_tree (''{'' @ espa_uri @ ''}''))
      else None)"

definition scene_strptime :: "string \<Rightarrow> date option" where
  "scene_strptime s =
     (if s = ''2001-05-11'' then Some \<lparr>year = 2001, month = 5, day = 11\<rparr> else None)"

definition scene_files :: "string list" where
  "scene_files =
     [''LE07.tar.gz'', ''LE07.xml'', ''LE07_sr_band1.tif'', ''LE07_sr_band2.tif'',
      ''LE07_sr_band3.tif'', ''LE07_sr_band4.tif'', ''LE07_sr_band5.tif'',
      ''LE07_sr_band7.tif'', ''LE07_pixel_qa.tif'', ''LE07_toa_band1.tif'']"

definition scene_cfg :: config where
  "scene_cfg = \<lparr>OUT_PATH = ''test'', WORKDIR = ''data/download'', OUTDIR = ''data/out''\<rparr>"

definition scene :: world where
  "scene =
     \<lparr>receive_messages = [Message 1 ''in/LE07.tar.gz''],
      isfile = (\<lambda>_. False),
      download_file = (\<lambda>_ _. True),
      tar_ok = (\<lambda>_. True),
      listdir = (\<lambda>_. scene_files),
      read_file = (\<lambda>_. descriptor_text ('' xmlns='' @ quoted espa_uri)),
      fromstring = scene_fromstring,
      strptime = scene_strptime,
      load_object = (\<lambda>_. NotFound404),
      abspath = (\<lambda>p. ''/app/'' @ p),
      walk = (\<lambda>p. [(p, scene_files)]),
      path_exists = (\<lambda>p. p \<in> set [''/app'', ''/app/data'', ''/app/data/download'']),
      cog_translate = (\<lambda>_ _. True),
      put_object = (\<lambda>_. True)\<rparr>"

text \<open>The seven outputs of the transform on the scene, in the order of the walk.\<close>

definition scene_outputs :: "string list" where
  "scene_outputs =
     map (\<lambda>f. ''/app/data/out/download/'' @ f)
       [''LE07_sr_band1.tif'', ''LE07_sr_band2.tif'', ''LE07_sr_band3.tif'',
        ''LE07_sr_band4.tif'', ''LE07_sr_band5.tif'', ''LE07_sr_band7.tif'',
        ''LE07_pixel_qa.tif'']"

text \<open>The same scene with the last two rasters missing: six qualifying files.\<close>

definition scene_six :: world where
  "scene_six = scene\<lparr>walk := (\<lambda>p. [(p, butlast (butlast scene_files))])\<rparr>"



definition scene_bare :: world where
  "scene_bare = scene\<lparr>listdir := (\<lambda>_. [''LE07.tar.gz''])\<rparr>"

definition scene_broken :: world where
  "scene_broken = scene\<lparr>fromstring := (\<lambda>_. None)\<rparr>"

definition scene_single_quoted :: world where
  "scene_single_quoted =
     scene\<lparr>read_file := (\<lambda>_. descriptor_text ('' xmlns='' @ squoted espa_uri))\<rparr>"

definition scene_plain :: world where
  "scene_plain = scene\<lparr>read_file := (\<lambda>_. descriptor_text [])\<rparr>"


section \<open>Traces of the stages\<close>

lemma uploads_simps [simp]:
  "uploads [] = []"
  "uploads (PutObject k f # tr) = (k, f) # uploads tr"
  "uploads (Download a b # tr) = uploads tr"
  "uploads (Untar a # tr) = uploads tr"
  "uploads (LoadObject a # tr) = uploads tr"
  "uploads (Makedirs a # tr) = uploads tr"
  "uploads (CogTranslate a b # tr) = uploads tr"
  "uploads (DeleteFiles a # tr) = uploads tr"
  "uploads (DeleteMessage m # tr) = uploads tr"
  "uploads (LogFinished # tr) = uploads tr"
  "uploads (LogFailed a # tr) = uploads tr"
  "uploads (LogIncomplete n # tr) = uploads tr"
  "uploads (tr @ tr') = uploads tr @ uploads tr'"
  by (simp_all add: uploads_def)

lemma transforms_simps [simp]:
  "transforms [] = []"
  "transforms (CogTranslate a b # tr) = (a, b) # transforms tr"
  "transforms (Download a b # tr) = transforms tr"
  "transforms (Untar a # tr) = transforms tr"
  "transforms (LoadObject a # tr) = transforms tr"
  "transforms (Makedirs a # tr) = transforms tr"
  "transforms (PutObject k f # tr) = transforms tr"
  "transforms (DeleteFiles a # tr) = transforms tr"
  "transforms (DeleteMessage m # tr) = transforms tr"
  "transforms (LogFinished # tr) = transforms tr"
  "transforms (LogFailed a # tr) = transforms tr"
  "transforms (LogIncomplete n # tr) = transforms tr"
  "transforms (tr @ tr') = transforms tr @ transforms tr'"
  by (simp_all add: transforms_def)

lemma deleted_simps [simp]:
  "deleted [] = []"
  "deleted (DeleteMessage m # tr) = m # deleted tr"
  "deleted (Download a b # tr) = deleted tr"
  "deleted (Untar a # tr) = deleted tr"
  "deleted (LoadObject a # tr) = deleted tr"
  "deleted (Makedirs a # tr) = deleted tr"
  "deleted (PutObject k f # tr) = deleted tr"
  "deleted (CogTranslate a b # tr) = deleted tr"
  "deleted (DeleteFiles a # tr) = deleted tr"
  "deleted (LogFinished # tr) = deleted tr"
  "deleted (LogFailed a # tr) = deleted tr"
  "deleted (LogIncomplete n # tr) = deleted tr"
  "deleted (tr @ tr') = deleted tr @ deleted tr'"
  by (simp_all add: deleted_def)



lemma fetch_quiet:
  "uploads (fst (fetch cfg w key)) = []"
  "transforms (fst (fetch cfg w key)) = []"
  "deleted (fst (fetch cfg w key)) = []"
  "LogFinished \<notin> set (fst (fetch cfg w key))"
  "LogFailed f \<notin> set (fst (fetch cfg w key))"
  by (simp_all add: fetch_def Let_def)


lemma transform_loop_uploads:
  "uploads (fst (transform_loop w od ex fs)) = []"
  by (induction fs arbitrary: ex)
     (auto simp: Let_def case_prod_beta split: if_splits sum.splits option.splits)

lemma transform_loop_deleted:
  "deleted (fst (transform_loop w od ex fs)) = []"
  by (induction fs arbitrary: ex)
     (auto simp: Let_def case_prod_beta split: if_splits sum.splits option.splits)

lemma transform_loop_logs:
  "LogFinished \<notin> set (fst (transform_loop w od ex fs)) \<and>
   LogFailed f \<notin> set (fst (transform_loop w od ex fs))"
  by (induction fs arbitrary: ex)
     (auto simp: Let_def case_prod_beta split: if_splits sum.splits option.splits)

lemma upload_data_quiet:
  "transforms (fst (upload_data w op fs)) = []"
  "deleted (fst (upload_data w op fs)) = []"
  "LogFinished \<notin> set (fst (upload_data w op fs))"
  "LogFailed f \<notin> set (fst (upload_data w op fs))"
  by (induction fs; simp add: Let_def case_prod_beta)+

lemma upload_data_prefix:
  "prefix (uploads (fst (upload_data w op fs))) (map (\<lambda>f. (op @ ''/'' @ basename f, f)) fs)"
  by (induction fs) (simp_all add: Let_def case_prod_beta)

lemma upload_data_done:
  "snd (upload_data w op fs) = None \<Longrightarrow>
   uploads (fst (upload_data w op fs)) = map (\<lambda>f. (op @ ''/'' @ basename f, f)) fs"
  by (induction fs) (simp_all add: Let_def case_prod_beta split: if_splits)

lemma upload_data_ok:
  "\<forall>k. put_object w k \<Longrightarrow> snd (upload_data w op fs) = None"
  by (induction fs) (simp_all add: Let_def case_prod_beta)


lemma transform_quiet:
  "uploads (fst (transform cfg w)) = []"
  "deleted (fst (transform cfg w)) = []"
  "LogFinished \<notin> set (fst (transform cfg w))"
  "LogFailed f \<notin> set (fst (transform cfg w))"
  by (simp_all add: transform_def Let_def transform_loop_uploads transform_loop_deleted
        transform_loop_logs)

lemma publish_uploads_prefix:
  "prefix (uploads (fst (publish w op xf xk fs)))
     (map (\<lambda>f. (op @ ''/'' @ basename f, f)) fs @ [(xk, xf)])"
proof (cases "snd (upload_data w op fs)")
  case None
  then show ?thesis
    by (simp add: publish_def case_prod_beta upload_data_done)
next
  case (Some e)
  then show ?thesis
    using upload_data_prefix [of w op fs]
    by (simp add: publish_def case_prod_beta)
qed

lemma publish_done:
  "snd (publish w op xf xk fs) = None \<Longrightarrow>
   uploads (fst (publish w op xf xk fs)) =
     map (\<lambda>f. (op @ ''/'' @ basename f, f)) fs @ [(xk, xf)]"
  by (cases "snd (upload_data w op fs)")
     (simp_all add: publish_def case_prod_beta upload_data_done)

lemma publish_ok:
  "\<forall>k. put_object w k \<Longrightarrow> snd (publish w op xf xk fs) = None"
  by (simp add: publish_def case_prod_beta upload_data_ok)

lemma publish_quiet:
  "transforms (fst (publish w op xf xk fs)) = []"
  "deleted (fst (publish w op xf xk fs)) = []"
  "LogFinished \<notin> set (fst (publish w op xf xk fs))"
  "LogFailed f \<notin> set (fst (publish w op xf xk fs))"
  by (simp_all add: publish_def case_prod_beta upload_data_quiet split: option.splits)


lemma handle_item_gate:
  assumes "describe cfg w = Inr (xml_file, out_path, xml_key)"
      and "check_processed w xml_key = Inr processed" and "overwrite \<or> \<not> processed"
      and "snd (transform cfg w) = Inr out_files"
  shows "handle_item cfg w overwrite =
           (if 7 \<le> length out_files
            then (LoadObject xml_key # fst (transform cfg w)
                    @ fst (publish w out_path xml_file xml_key out_files),
                  case snd (publish w out_path xml_file xml_key out_files) of
                    Some e \<Rightarrow> Inl e | None \<Rightarrow> Inr False)
            else (LoadObject xml_key # fst (transform cfg w)
                    @ [LogIncomplete (length out_files)], Inr True))"
  using assms by (auto simp: handle_item_def case_prod_beta split: option.splits)

lemma handle_item_describe_fails:
  "describe cfg w = Inl e \<Longrightarrow> handle_item cfg w overwrite = ([], Inl e)"
  by (simp add: handle_item_def)

lemma process_one_unpacked:
  assumes "next_item w test = Some (msg, key)"
      and "snd (fetch cfg w key) = None" and "tar_ok w (local_name key)"
  shows "process_one cfg w overwrite cleanup test =
           (case snd (handle_item cfg w overwrite) of
              Inl e \<Rightarrow>
                (fst (fetch cfg w key) @ Untar (local_name key)
                   # fst (handle_item cfg w overwrite), Inl e)
            | Inr failed \<Rightarrow>
                (fst (fetch cfg w key) @ Untar (local_name key)
                   # fst (handle_item cfg w overwrite)
                   @ fst (finish cfg w
                            (fs_after (path_exists w) (fst (handle_item cfg w overwrite)))
                            cleanup msg (local_name key) failed),
                 snd (finish cfg w
                        (fs_after (path_exists w) (fst (handle_item cfg w overwrite)))
                        cleanup msg (local_name key) failed)))"
  using assms
  by (simp add: process_one_def Let_def case_prod_beta split: option.splits sum.splits)

lemma process_one_untar_failed:
  assumes "next_item w test = Some (msg, key)"
      and "snd (fetch cfg w key) = None" and "\<not> tar_ok w (local_name key)"
  shows "process_one cfg w overwrite cleanup test =
           (fst (fetch cfg w key) @ Untar (local_name key)
              # fst (finish cfg w (path_exists w) cleanup msg (local_name key) True),
            snd (finish cfg w (path_exists w) cleanup msg (local_name key) True))"
  using assms
  by (simp add: process_one_def Let_def case_prod_beta split: option.splits sum.splits)

lemma cleanup_dirs_quiet:
  "uploads (fst (cleanup_dirs cfg w ex cleanup)) = []"
  "transforms (fst (cleanup_dirs cfg w ex cleanup)) = []"
  "deleted (fst (cleanup_dirs cfg w ex cleanup)) = []"
  "LogFinished \<notin> set (fst (cleanup_dirs cfg w ex cleanup))"
  "LogFailed f \<notin> set (fst (cleanup_dirs cfg w ex cleanup))"
  "LogIncomplete n \<notin> set (fst (cleanup_dirs cfg w ex cleanup))"
  by (simp_all add: cleanup_dirs_def case_prod_beta split: option.splits)

lemma cleanup_dirs_off:
  "cleanup_dirs cfg w ex False = ([], None)"
  by (simp add: cleanup_dirs_def)

lemma cleanup_dirs_raises:
  "cleanup \<Longrightarrow> \<not> ex (abspath w (OUTDIR cfg)) \<Longrightarrow>
   \<exists>evs. cleanup_dirs cfg w ex cleanup = (evs, Some FileNotFoundError)"
  by (simp add: cleanup_dirs_def delete_files_def Let_def)


lemma finish_unleased:
  "snd (cleanup_dirs cfg w ex cleanup) = None \<Longrightarrow>
   finish cfg w ex cleanup None lf failed =
     (fst (cleanup_dirs cfg w ex cleanup)
        @ [if failed then LogFailed lf else LogFinished], Inl AttributeError)"
  by (simp add: finish_def case_prod_beta split: option.splits)


lemma finish_quiet:
  "uploads (fst (finish cfg w ex cleanup msg lf failed)) = []"
  "transforms (fst (finish cfg w ex cleanup msg lf failed)) = []"
  "LogIncomplete n \<notin> set (fst (finish cfg w ex cleanup msg lf failed))"
  by (cases msg; simp add: finish_def case_prod_beta cleanup_dirs_quiet split: option.splits)+

lemma finish_logs:
  "LogFinished \<in> set (fst (finish cfg w ex cleanup msg lf failed)) \<longleftrightarrow>
     \<not> failed \<and> snd (cleanup_dirs cfg w ex cleanup) = None"
  "LogFailed f \<in> set (fst (finish cfg w ex cleanup msg lf failed)) \<longleftrightarrow>
     failed \<and> f = lf \<and> snd (cleanup_dirs cfg w ex cleanup) = None"
  by (cases msg; auto simp: finish_def case_prod_beta cleanup_dirs_quiet split: option.splits)+

lemma finish_no_message:
  "\<exists>e. snd (finish cfg w ex cleanup None lf failed) = Inl e"
  "deleted (fst (finish cfg w ex cleanup None lf failed)) = []"
  "LogFinished \<in> set (fst (finish cfg w ex cleanup None lf failed))
     \<or> LogFailed f \<in> set (fst (finish cfg w ex cleanup None lf failed)) \<Longrightarrow>
   snd (finish cfg w ex cleanup None lf failed) = Inl AttributeError"
  by (auto simp: finish_def case_prod_beta cleanup_dirs_quiet split: option.splits)

lemma fs_after_quiet:
  "\<forall>d. Makedirs d \<notin> set evs \<Longrightarrow> fs_after ex evs = ex"
  by (induction ex evs rule: fs_after.induct) auto

lemma fs_after_append:
  "fs_after ex (evs @ evs') = fs_after (fs_after ex evs) evs'"
  by (induction ex evs rule: fs_after.induct) simp_all

lemma fs_after_keeps:
  "ex p \<Longrightarrow> fs_after ex evs p"
  by (induction ex evs rule: fs_after.induct) (simp_all add: makedirs_def)

lemma fs_after_made:
  "Makedirs d \<in> set evs \<Longrightarrow> p = d \<or> prefix (p @ ''/'') d \<Longrightarrow> fs_after ex evs p"
  by (induction ex evs rule: fs_after.induct) (auto simp: makedirs_def fs_after_keeps)

lemma handle_item_logs:
  "LogFinished \<notin> set (fst (handle_item cfg w overwrite))"
  "LogFailed f \<notin> set (fst (handle_item cfg w overwrite))"
  by (auto simp: handle_item_def case_prod_beta transform_quiet publish_quiet
      split: sum.splits option.splits if_splits)

lemma handle_item_deleted:
  "deleted (fst (handle_item cfg w overwrite)) = []"
  by (auto simp: handle_item_def case_prod_beta transform_quiet publish_quiet
      split: sum.splits option.splits if_splits)

lemma handle_item_uploads:
  assumes described: "describe cfg w = Inr (xml_file, out_path, xml_key)"
      and transformed: "snd (transform cfg w) = Inr out_files"
  shows "prefix (uploads (fst (handle_item cfg w overwrite)))
           (map (\<lambda>f. (out_path @ ''/'' @ basename f, f)) out_files @ [(xml_key, xml_file)])"
    and "snd (handle_item cfg w overwrite) = Inr failed \<Longrightarrow>
         uploads (fst (handle_item cfg w overwrite)) \<noteq> [] \<Longrightarrow>
         uploads (fst (handle_item cfg w overwrite)) =
           map (\<lambda>f. (out_path @ ''/'' @ basename f, f)) out_files @ [(xml_key, xml_file)]"
proof -
  let ?full = "map (\<lambda>f. (out_path @ ''/'' @ basename f, f)) out_files @ [(xml_key, xml_file)]"
  let ?pub = "publish w out_path xml_file xml_key out_files"
  have shape: "uploads (fst (handle_item cfg w overwrite)) = [] \<or>
     (uploads (fst (handle_item cfg w overwrite)) = uploads (fst ?pub) \<and>
      snd (handle_item cfg w overwrite) =
        (case snd ?pub of Some e \<Rightarrow> Inl e | None \<Rightarrow> Inr False))"
    using described transformed
    by (auto simp: handle_item_def case_prod_beta transform_quiet
        split: sum.splits option.splits)
  show "prefix (uploads (fst (handle_item cfg w overwrite))) ?full"
    using shape publish_uploads_prefix [of w out_path xml_file xml_key out_files] by auto
  show "uploads (fst (handle_item cfg w overwrite)) = ?full"
    if "snd (handle_item cfg w overwrite) = Inr failed"
      and "uploads (fst (handle_item cfg w overwrite)) \<noteq> []"
    using shape that publish_done [of w out_path xml_file xml_key out_files]
    by (auto split: option.splits)
qed

lemma process_one_uploads:
  "uploads (fst (process_one cfg w overwrite cleanup test)) = [] \<or>
   (uploads (fst (process_one cfg w overwrite cleanup test)) =
      uploads (fst (handle_item cfg w overwrite)) \<and>
    (LogFinished \<in> set (fst (process_one cfg w overwrite cleanup test)) \<longrightarrow>
      snd (handle_item cfg w overwrite) = Inr False))"
  by (auto simp: process_one_def Let_def case_prod_beta fetch_quiet finish_quiet finish_logs
        handle_item_logs split: option.splits sum.splits)

lemma transform_loop_all:
  assumes "\<forall>i out. cog_translate w i out"
  shows "transforms (fst (transform_loop w od ex fs)) =
           map (\<lambda>(p, f). (join2 p f, join2 od (check_dir (join2 p f))))
             (filter (\<lambda>(p, f). qualifies f) fs)
       \<and> snd (transform_loop w od ex fs) =
           Inr (map (\<lambda>(p, f). join2 od (check_dir (join2 p f)))
                  (filter (\<lambda>(p, f). qualifies f) fs))"
  using assms
  by (induction fs arbitrary: ex)
     (auto simp: getfilename_def Let_def case_prod_beta split: sum.splits)

lemma transform_loop_dirs:
  "(i, out) \<in> set (transforms (fst (transform_loop w od ex fs))) \<Longrightarrow>
   ex (dirname out) \<or>
   (\<exists>d. Makedirs d \<in> set (fst (transform_loop w od ex fs))
      \<and> (dirname out = d \<or> prefix (dirname out @ ''/'') d))"
proof (induction fs arbitrary: ex)
  case Nil
  then show ?case by simp
next
  case (Cons a fs)
  obtain p f where a: "a = (p, f)" by (cases a)
  show ?case
  proof (cases "qualifies f")
    case False
    then show ?thesis using Cons a by simp
  next
    case True
    let ?i = "join2 p f"
    let ?out = "join2 od (check_dir ?i)"
    let ?ex' = "if ex (dirname ?out) then ex else makedirs ex (dirname ?out)"
    show ?thesis
    proof (cases "cog_translate w ?i ?out")
      case False
      then show ?thesis
        using Cons.prems a True
        by (auto simp: getfilename_def Let_def split: if_splits)
    next
      case ok: True
      have evs: "fst (transform_loop w od ex (a # fs)) =
          (if ex (dirname ?out) then [] else [Makedirs (dirname ?out)])
            @ [CogTranslate ?i ?out] @ fst (transform_loop w od ?ex' fs)"
        using a True ok
        by (auto simp: getfilename_def Let_def case_prod_beta split: sum.splits)
      from Cons.prems consider "(i, out) = (?i, ?out)"
        | "(i, out) \<in> set (transforms (fst (transform_loop w od ?ex' fs)))"
        by (auto simp: evs split: if_splits)
      then show ?thesis
      proof cases
        case 1
        then show ?thesis by (auto simp: evs)
      next
        case 2
        from Cons.IH [OF 2] show ?thesis
          by (auto simp: evs makedirs_def split: if_splits)
      qed
    qed
  qed
qed

lemma handle_item_transforms:
  assumes "describe cfg w = Inr (xml_file, out_path, xml_key)"
      and "check_processed w xml_key = Inr processed" and "overwrite \<or> \<not> processed"
  shows "transforms (fst (handle_item cfg w overwrite)) = transforms (fst (transform cfg w))"
    and "set (fst (transform cfg w)) \<subseteq> set (fst (handle_item cfg w overwrite))"
  using assms
  by (auto simp: handle_item_def case_prod_beta publish_quiet split: sum.splits option.splits)

section \<open>The namespace pattern and the refill loop\<close>

lemma prefix_append_Cons:
  "prefix xs (ys @ c # zs) \<Longrightarrow> prefix xs ys \<or> c \<in> set xs"
  by (auto simp: prefix_append prefix_Cons)

lemma space_not_in_xmlns_eq:
  "is_space c \<Longrightarrow> c \<notin> set xmlns_eq"
  by (auto simp: is_space_def xmlns_eq_def)

lemma match_xmlns_needs_text:
  "match_xmlns (a # s) = Some r \<Longrightarrow> prefix xmlns_eq s"
  by (simp add: match_xmlns_def split: if_splits)

lemma re_sub_no_match:
  "\<not> sublist xmlns_eq s \<Longrightarrow> re_sub_xmlns s = s"
proof (induction s)
  case Nil
  then show ?case by simp
next
  case (Cons a s)
  then have rest: "\<not> sublist xmlns_eq s"
    by (simp add: sublist_Cons_right)
  then have "match_xmlns (a # s) = None"
    using match_xmlns_needs_text [of a s] by (cases "match_xmlns (a # s)") auto
  with Cons.IH [OF rest] show ?case by simp
qed

lemma split_at_quote:
  "d \<notin> set u \<Longrightarrow>
   takeWhile (\<lambda>x. x \<noteq> d) (u @ d # p) = u \<and> dropWhile (\<lambda>x. x \<noteq> d) (u @ d # p) = d # p"
  by (induction u) auto

lemma match_xmlns_declaration:
  assumes "is_space c" and "uri \<noteq> []" and "dquote \<notin> set uri"
  shows "match_xmlns (c # xmlns_eq @ uri @ dquote # post) = Some post"
  using assms(1,2) split_at_quote [OF assms(3), of post]
  by (simp add: match_xmlns_def Let_def)

lemma get_metadata_text:
  assumes "re_sub_xmlns (read_file w' f) = re_sub_xmlns (read_file w f)"
      and "fromstring w' = fromstring w" and "strptime w' = strptime w"
  shows "get_metadata w' f = get_metadata w f"
  unfolding get_metadata_def assms by (rule refl)

lemma re_sub_declaration:
  assumes "is_space c" and "uri \<noteq> []" and "dquote \<notin> set uri"
  shows "\<not> sublist xmlns_eq pre \<Longrightarrow>
         re_sub_xmlns (pre @ c # xmlns_eq @ uri @ dquote # post) = pre @ post"
proof (induction pre)
  case Nil
  show ?case
    by (simp add: match_xmlns_declaration [OF assms])
next
  case (Cons a pre)
  then have rest: "\<not> sublist xmlns_eq pre"
    by (simp add: sublist_Cons_right)
  have "\<not> prefix xmlns_eq (pre @ c # xmlns_eq @ uri @ dquote # post)"
    using prefix_append_Cons [of xmlns_eq pre c] rest space_not_in_xmlns_eq [OF assms(1)]
    by (auto simp: prefix_imp_sublist)
  then have "match_xmlns (a # pre @ c # xmlns_eq @ uri @ dquote # post) = None"
    using match_xmlns_needs_text [of a "pre @ c # xmlns_eq @ uri @ dquote # post"]
    by (cases "match_xmlns (a # pre @ c # xmlns_eq @ uri @ dquote # post)") auto
  with Cons.IH [OF rest] show ?case by simp
qed

lemma get_items_loop_one_page:
  "f \<noteq> [] \<Longrightarrow>
   get_items_loop L (Some f) c (yield_matching keys [] Done) =
     (take (nat (L - c - 1)) (filter (contains f) keys), None)"
proof (induction keys arbitrary: c)
  case Nil
  then show ?case by simp
next
  case (Cons k keys)
  have e: "endswith k []" by (simp add: endswith_def)
  show ?case
  proof (cases "contains f k")
    case False
    then show ?thesis using Cons by (simp add: e)
  next
    case True
    show ?thesis
    proof (cases "c + 1 \<ge> L")
      case True
      then show ?thesis using \<open>contains f k\<close> Cons.prems by (simp add: e)
    next
      case False
      then have "nat (L - c - 1) = Suc (nat (L - (c + 1) - 1))" by simp
      then show ?thesis
        using \<open>contains f k\<close> Cons.prems False Cons.IH [OF Cons.prems, of "c + 1"]
        by (simp add: e)
    qed
  qed
qed

section \<open>Decimal numerals\<close>

lemma decimal_one:
  "n < 10 \<Longrightarrow> decimal n = [digit n]"
  by (simp add: decimal.simps [of n])

lemma decimal_more:
  "10 \<le> n \<Longrightarrow> decimal n = decimal (n div 10) @ [digit n]"
  by (simp add: decimal.simps [of n])


lemma decimal_four:
  assumes "1000 \<le> n" and "n \<le> 9999"
  shows "decimal n = [digit (n div 1000), digit (n div 100), digit (n div 10), digit n]"
proof -
  have "n div 10 div 10 = n div 100" "n div 100 div 10 = n div 1000"
    by (simp_all add: div_mult2_eq [symmetric])
  moreover have "10 \<le> n" "10 \<le> n div 10" "10 \<le> n div 100" "n div 1000 < 10"
    using assms by simp_all
  ultimately show ?thesis
    by (simp add: decimal_more [of n] decimal_more [of "n div 10"]
          decimal_more [of "n div 100"] decimal_one [of "n div 1000"])
qed





section \<open>The concrete scene, evaluated\<close>

lemmas path_defs = join2_def endswith_def contains_def basename_def dirname_def check_dir_def
  pjoin_def local_name_def suffix_to_prefix

lemmas scene_defs = scene_def scene_cfg_def scene_files_def scene_fromstring_def
  scene_strptime_def descriptor_text_def descriptor_tree_def espa_uri_def quoted_def squoted_def

lemma scene_item:
  "next_item scene False = Some (Some (Message 1 ''in/LE07.tar.gz''), ''in/LE07.tar.gz'')"
  by (simp add: next_item_def scene_def)

lemma scene_fetch:
  "fetch scene_cfg scene ''in/LE07.tar.gz'' =
     ([Download ''in/LE07.tar.gz'' ''data/download/LE07.tar.gz''], None)"
  by (simp add: fetch_def scene_defs path_defs)

lemma scene_metadata:
  "get_metadata scene f =
     Inr \<lparr>datetime = \<lparr>year = 2001, month = 5, day = 11\<rparr>, satellite = Some ''LE07'',
          path = ''021'', row = ''048''\<rparr>"
  by (simp add: get_metadata_def scene_defs match_xmlns_def xmlns_eq_def is_space_def
        find_descendant_def find_child_def)

lemma scene_xmlfile:
  "get_xmlfile (listdir scene d) = Some ''LE07.xml''"
  by (simp add: get_xmlfile_def scene_def scene_files_def contains_def sublist_code)

lemma scene_describe:
  "describe scene_cfg scene =
     Inr (''data/download/LE07.xml'', ''test/LE07/021/048/2001/05/11'',
          ''test/LE07/021/048/2001/05/11/LE07.xml'')"
  by (simp add: describe_def Let_def scene_xmlfile scene_metadata scene_cfg_def path_defs
        out_file_path_def format_str_def strftime_ymd_def decimal_four pad2_def digit_def)

lemma scene_qualifies:
  "filter qualifies scene_files =
     [''LE07_sr_band1.tif'', ''LE07_sr_band2.tif'', ''LE07_sr_band3.tif'',
      ''LE07_sr_band4.tif'', ''LE07_sr_band5.tif'', ''LE07_sr_band7.tif'',
      ''LE07_pixel_qa.tif'']"
  by (simp add: scene_files_def qualifies_def endswith_def contains_def suffix_to_prefix
        sublist_code)

lemma get_metadata_cong:
  assumes "read_file w' = read_file w" and "fromstring w' = fromstring w"
      and "strptime w' = strptime w"
  shows "get_metadata w' f = get_metadata w f"
  unfolding get_metadata_def assms by (rule refl)

lemma describe_cong:
  assumes "listdir w' = listdir w" and "read_file w' = read_file w"
      and "fromstring w' = fromstring w" and "strptime w' = strptime w"
  shows "describe cfg w' = describe cfg w"
  unfolding describe_def get_metadata_cong [OF assms(2-4)] assms(1) by (rule refl)

lemma transform_all:
  assumes "\<forall>i out. cog_translate w i out"
  shows "snd (transform cfg w) =
           Inr (map (\<lambda>(p, f). join2 (abspath w (OUTDIR cfg)) (check_dir (join2 p f)))
                  (filter (\<lambda>(p, f). qualifies f) (walk_files (walk w (abspath w (WORKDIR cfg))))))"
  using transform_loop_all [OF assms] by (simp add: transform_def Let_def)

lemma scene_walk:
  "filter (\<lambda>(p, f). qualifies f) (walk_files (walk scene d)) =
     map (Pair d) (filter qualifies scene_files)"
  by (simp add: walk_files_def scene_def filter_map comp_def)

lemma scene_transform:
  "snd (transform scene_cfg scene) = Inr scene_outputs"
proof -
  have "\<forall>i out. cog_translate scene i out"
    by (simp add: scene_def)
  from transform_all [OF this] show ?thesis
    by (simp add: scene_walk scene_qualifies)
       (simp add: scene_def scene_cfg_def scene_outputs_def path_defs)
qed

lemma scene_six_transform:
  "snd (transform scene_cfg scene_six) = Inr (butlast scene_outputs)"
proof -
  have "\<forall>i out. cog_translate scene_six i out"
    by (simp add: scene_six_def scene_def)
  from transform_all [OF this] show ?thesis
    by (simp add: scene_six_def walk_files_def scene_files_def qualifies_def endswith_def
          contains_def suffix_to_prefix sublist_code)
       (simp add: scene_def scene_cfg_def scene_outputs_def path_defs)
qed


lemma scene_six_describe:
  "describe scene_cfg scene_six = describe scene_cfg scene"
  by (rule describe_cong) (simp_all add: scene_six_def)

lemma scene_name: "local_name ''in/LE07.tar.gz'' = ''LE07.tar.gz''"
  by (simp add: local_name_def)

lemma scene_handle_item:
  "handle_item scene_cfg scene overwrite =
     (LoadObject ''test/LE07/021/048/2001/05/11/LE07.xml'' # fst (transform scene_cfg scene)
        @ fst (publish scene ''test/LE07/021/048/2001/05/11'' ''data/download/LE07.xml''
                 ''test/LE07/021/048/2001/05/11/LE07.xml'' scene_outputs),
      Inr False)"
proof -
  have fresh: "check_processed scene ''test/LE07/021/048/2001/05/11/LE07.xml'' = Inr False"
    by (simp add: check_processed_def scene_def)
  have stored: "\<forall>k. put_object scene k"
    by (simp add: scene_def)
  have seven: "7 \<le> length scene_outputs"
    by (simp add: scene_outputs_def)
  show ?thesis
    using handle_item_gate [OF scene_describe fresh _ scene_transform, of overwrite]
    by (simp add: seven publish_ok [OF stored])
qed

lemma scene_run:
  "process_one scene_cfg scene overwrite cleanup False =
     (fst (fetch scene_cfg scene ''in/LE07.tar.gz'') @ Untar ''LE07.tar.gz''
        # fst (handle_item scene_cfg scene overwrite)
        @ fst (finish scene_cfg scene
                 (fs_after (path_exists scene) (fst (handle_item scene_cfg scene overwrite)))
                 cleanup (Some (Message 1 ''in/LE07.tar.gz'')) ''LE07.tar.gz'' False),
      snd (finish scene_cfg scene
             (fs_after (path_exists scene) (fst (handle_item scene_cfg scene overwrite)))
             cleanup (Some (Message 1 ''in/LE07.tar.gz'')) ''LE07.tar.gz'' False))"
proof -
  have unpacked: "tar_ok scene (local_name ''in/LE07.tar.gz'')"
    by (simp add: scene_def)
  have fetched: "snd (fetch scene_cfg scene ''in/LE07.tar.gz'') = None"
    by (simp add: scene_fetch)
  show ?thesis
    by (simp add: process_one_unpacked [OF scene_item fetched unpacked] scene_handle_item
          scene_name)
qed


lemma scene_bare_describe:
  "describe scene_cfg scene_bare = Inl TypeError"
  by (simp add: describe_def get_xmlfile_def scene_bare_def scene_def contains_def sublist_code)

lemma scene_broken_describe:
  "describe scene_cfg scene_broken = Inl ParseError"
proof -
  have "get_xmlfile (listdir scene_broken d) = Some ''LE07.xml''" for d
    using scene_xmlfile [of d] by (simp add: scene_broken_def scene_def)
  then show ?thesis
    by (simp add: describe_def get_metadata_def scene_broken_def Let_def)
qed

lemma scene_transforms:
  "transforms (fst (process_one scene_cfg scene overwrite cleanup False)) =
     map (\<lambda>f. (''/app/data/download/'' @ f, ''/app/data/out/download/'' @ f))
       (filter qualifies scene_files)"
proof -
  have "\<forall>i out. cog_translate scene i out"
    by (simp add: scene_def)
  from transform_loop_all [OF this]
  have "transforms (fst (transform scene_cfg scene)) =
      map (\<lambda>(p, f). (join2 p f, join2 (abspath scene (OUTDIR scene_cfg)) (check_dir (join2 p f))))
        (map (Pair (abspath scene (WORKDIR scene_cfg))) (filter qualifies scene_files))"
    by (simp add: transform_def Let_def scene_walk)
  then show ?thesis
    by (simp add: scene_run scene_handle_item fetch_quiet finish_quiet publish_quiet
          scene_qualifies)
       (simp add: scene_def scene_cfg_def path_defs)
qed

lemma cleanup_dirs_ok:
  "ex (abspath w (WORKDIR cfg)) \<Longrightarrow> ex (abspath w (OUTDIR cfg)) \<Longrightarrow>
   \<not> prefix (abspath w (WORKDIR cfg) @ ''/'') (abspath w (OUTDIR cfg)) \<Longrightarrow>
   snd (cleanup_dirs cfg w ex cleanup) = None"
  by (simp add: cleanup_dirs_def delete_files_def Let_def)

lemma transform_makes_outdir:
  assumes "(i, out) \<in> set (transforms (fst (transform cfg w)))"
      and "\<not> path_exists w (dirname out)"
      and "prefix (p @ ''/'') (dirname out)"
  shows "fs_after (path_exists w) (fst (transform cfg w)) p"
proof -
  from assms(1,2) obtain d where made: "Makedirs d \<in> set (fst (transform cfg w))"
    and d: "dirname out = d \<or> prefix (dirname out @ ''/'') d"
    using transform_loop_dirs [of i out w "abspath w (OUTDIR cfg)" "path_exists w"
        "walk_files (walk w (abspath w (WORKDIR cfg)))"]
    unfolding transform_def Let_def by blast
  from d assms(3) have "prefix (p @ ''/'') d"
    by (auto dest: append_prefixD intro: prefix_order.trans)
  then show ?thesis
    using fs_after_made [OF made] by blast
qed

lemma scene_transform_list:
  "transforms (fst (transform scene_cfg scene)) =
     map (\<lambda>f. (''/app/data/download/'' @ f, ''/app/data/out/download/'' @ f))
       (filter qualifies scene_files)"
proof -
  have "\<forall>i out. cog_translate scene i out"
    by (simp add: scene_def)
  from transform_loop_all [OF this]
  have "transforms (fst (transform scene_cfg scene)) =
      map (\<lambda>(p, f). (join2 p f, join2 (abspath scene (OUTDIR scene_cfg)) (check_dir (join2 p f))))
        (map (Pair (abspath scene (WORKDIR scene_cfg))) (filter qualifies scene_files))"
    by (simp add: transform_def Let_def scene_walk)
  then show ?thesis
    by (simp add: scene_qualifies) (simp add: scene_def scene_cfg_def path_defs)
qed

lemma scene_outdir_made:
  "fs_after (path_exists scene) (fst (transform scene_cfg scene)) ''/app/data/out''"
proof (rule transform_makes_outdir)
  show "(''/app/data/download/LE07_sr_band1.tif'', ''/app/data/out/download/LE07_sr_band1.tif'')
      \<in> set (transforms (fst (transform scene_cfg scene)))"
    by (simp add: scene_transform_list scene_qualifies)
  show "\<not> path_exists scene (dirname ''/app/data/out/download/LE07_sr_band1.tif'')"
    by (simp add: scene_def dirname_def)
  show "prefix (''/app/data/out'' @ ''/'') (dirname ''/app/data/out/download/LE07_sr_band1.tif'')"
    by (simp add: dirname_def)
qed

lemma no_incomplete:
  "LogIncomplete n \<notin> set (fst (fetch cfg w key))"
  "LogIncomplete n \<notin> set (fst (transform cfg w))"
  "LogIncomplete n \<notin> set (fst (publish w op xf xk fs))"
proof -
  show "LogIncomplete n \<notin> set (fst (fetch cfg w key))"
    by (simp add: fetch_def Let_def)
  have "LogIncomplete n \<notin> set (fst (transform_loop w od ex fl))" for od ex fl
    by (induction fl arbitrary: ex)
       (auto simp: Let_def case_prod_beta split: if_splits sum.splits option.splits)
  then show "LogIncomplete n \<notin> set (fst (transform cfg w))"
    by (simp add: transform_def Let_def)
  have "LogIncomplete n \<notin> set (fst (upload_data w op fs))"
    by (induction fs) (simp_all add: Let_def case_prod_beta)
  then show "LogIncomplete n \<notin> set (fst (publish w op xf xk fs))"
    by (simp add: publish_def case_prod_beta split: option.splits)
qed

lemma transform_list:
  assumes "\<forall>i out. cog_translate w i out"
  shows "transforms (fst (transform cfg w)) =
           map (\<lambda>(p, f). (join2 p f, join2 (abspath w (OUTDIR cfg)) (check_dir (join2 p f))))
             (filter (\<lambda>(p, f). qualifies f) (walk_files (walk w (abspath w (WORKDIR cfg)))))"
  using transform_loop_all [OF assms] by (simp add: transform_def Let_def)

lemma scene_cleanup:
  "snd (cleanup_dirs scene_cfg scene
          (fs_after (path_exists scene) (fst (handle_item scene_cfg scene overwrite))) cleanup)
     = None"
proof (rule cleanup_dirs_ok)
  let ?ex = "fs_after (path_exists scene) (fst (handle_item scene_cfg scene overwrite))"
  have tail: "?ex p" if "fs_after (path_exists scene) (fst (transform scene_cfg scene)) p" for p
    using that by (simp add: scene_handle_item fs_after_append fs_after_keeps)
  show "?ex (abspath scene (WORKDIR scene_cfg))"
    by (rule fs_after_keeps) (simp add: scene_def scene_cfg_def)
  have "?ex ''/app/data/out''"
    by (rule tail) (rule scene_outdir_made)
  then show "?ex (abspath scene (OUTDIR scene_cfg))"
    by (simp add: scene_def scene_cfg_def)
  show "\<not> prefix (abspath scene (WORKDIR scene_cfg) @ ''/'') (abspath scene (OUTDIR scene_cfg))"
    by (simp add: scene_def scene_cfg_def)
qed

lemma scene_six_facts:
  "next_item scene_six False = Some (Some (Message 1 ''in/LE07.tar.gz''), ''in/LE07.tar.gz'')"
  "snd (fetch scene_cfg scene_six ''in/LE07.tar.gz'') = None"
  "tar_ok scene_six (local_name ''in/LE07.tar.gz'')"
  "check_processed scene_six ''test/LE07/021/048/2001/05/11/LE07.xml'' = Inr False"
  by (simp_all add: next_item_def fetch_def check_processed_def scene_six_def scene_def)

lemma scene_six_handle_item:
  "handle_item scene_cfg scene_six overwrite =
     (LoadObject ''test/LE07/021/048/2001/05/11/LE07.xml'' # fst (transform scene_cfg scene_six)
        @ [LogIncomplete 6], Inr True)"
proof -
  have described: "describe scene_cfg scene_six =
     Inr (''data/download/LE07.xml'', ''test/LE07/021/048/2001/05/11'',
          ''test/LE07/021/048/2001/05/11/LE07.xml'')"
    by (simp add: scene_six_describe scene_describe)
  have seven: "length scene_outputs = 7"
    by (simp add: scene_outputs_def)
  show ?thesis
    using handle_item_gate [OF described scene_six_facts(4) _ scene_six_transform, of overwrite]
    by (simp add: seven)
qed

lemma scene_six_cleanup:
  "snd (cleanup_dirs scene_cfg scene_six
          (fs_after (path_exists scene_six) (fst (handle_item scene_cfg scene_six overwrite)))
          cleanup) = None"
proof (rule cleanup_dirs_ok)
  let ?ex = "fs_after (path_exists scene_six) (fst (handle_item scene_cfg scene_six overwrite))"
  have converts: "\<forall>i out. cog_translate scene_six i out"
    by (simp add: scene_six_def scene_def)
  have "transforms (fst (transform scene_cfg scene_six)) =
      map (\<lambda>f. (''/app/data/download/'' @ f, ''/app/data/out/download/'' @ f))
        (butlast (filter qualifies scene_files))"
    using transform_list [OF converts, of scene_cfg]
    by (simp add: scene_six_def walk_files_def scene_files_def qualifies_def endswith_def
          contains_def suffix_to_prefix sublist_code)
       (simp add: scene_def scene_cfg_def path_defs)
  then have first: "(''/app/data/download/LE07_sr_band1.tif'',
      ''/app/data/out/download/LE07_sr_band1.tif'')
      \<in> set (transforms (fst (transform scene_cfg scene_six)))"
    by (simp add: scene_qualifies)
  have made: "fs_after (path_exists scene_six) (fst (transform scene_cfg scene_six)) ''/app/data/out''"
    by (rule transform_makes_outdir [OF first])
       (simp_all add: scene_six_def scene_def dirname_def)
  have tail: "?ex p"
    if "fs_after (path_exists scene_six) (fst (transform scene_cfg scene_six)) p" for p
    using that by (simp add: scene_six_handle_item fs_after_append)
  show "?ex (abspath scene_six (WORKDIR scene_cfg))"
    by (rule fs_after_keeps) (simp add: scene_six_def scene_def scene_cfg_def)
  have "?ex ''/app/data/out''"
    by (rule tail) (rule made)
  then show "?ex (abspath scene_six (OUTDIR scene_cfg))"
    by (simp add: scene_six_def scene_def scene_cfg_def)
  show "\<not> prefix (abspath scene_six (WORKDIR scene_cfg) @ ''/'')
      (abspath scene_six (OUTDIR scene_cfg))"
    by (simp add: scene_six_def scene_def scene_cfg_def)
qed






section \<open>The completeness gate\<close>

text \<open>
  Claim C1. In \<^verbatim>\<open>process_one\<close>, publication is gated on the number of outputs that the
  transform produced. For a run that reaches the gate (an item was taken, the archive
  fetched and unpacked, the descriptor read, the item not skipped, and every transform
  returned, with the list \<open>out_files\<close>): when there are seven or more outputs and the
  store accepts the uploads, the upload calls of the run are exactly one per output,
  followed by the descriptor, \<^verbatim>\<open>process_failed\<close> stays false and no failure is logged;
  when there are six or fewer, the run makes no upload call at all, \<^verbatim>\<open>process_failed\<close>
  is set, the error with the number of outputs is logged and success is not. When the
  cleanup raises nothing, the closing log line says the same: finished in the first
  case, failed in the second.
\<close>

theorem completeness_gate:
  assumes item: "next_item w test = Some (msg, key)"
      and fetched: "snd (fetch cfg w key) = None"
      and unpacked: "tar_ok w (local_name key)"
      and described: "describe cfg w = Inr (xml_file, out_path, xml_key)"
      and fresh: "check_processed w xml_key = Inr processed" "overwrite \<or> \<not> processed"
      and transformed: "snd (transform cfg w) = Inr out_files"
  shows "(7 \<le> length out_files \<and> (\<forall>k. put_object w k) \<longrightarrow>
            uploads (fst (process_one cfg w overwrite cleanup test)) =
              map (\<lambda>f. (out_path @ ''/'' @ basename f, f)) out_files @ [(xml_key, xml_file)]
            \<and> snd (handle_item cfg w overwrite) = Inr False
            \<and> (\<forall>n. LogIncomplete n \<notin> set (fst (process_one cfg w overwrite cleanup test)))
            \<and> LogFailed (local_name key) \<notin> set (fst (process_one cfg w overwrite cleanup test)))
       \<and> (length out_files \<le> 6 \<longrightarrow>
            uploads (fst (process_one cfg w overwrite cleanup test)) = []
            \<and> snd (handle_item cfg w overwrite) = Inr True
            \<and> LogIncomplete (length out_files)
                 \<in> set (fst (process_one cfg w overwrite cleanup test))
            \<and> LogFinished \<notin> set (fst (process_one cfg w overwrite cleanup test)))
       \<and> (snd (cleanup_dirs cfg w
                 (fs_after (path_exists w) (fst (handle_item cfg w overwrite))) cleanup) = None
            \<longrightarrow>
            (7 \<le> length out_files \<and> (\<forall>k. put_object w k) \<longrightarrow>
               LogFinished \<in> set (fst (process_one cfg w overwrite cleanup test)))
            \<and> (length out_files \<le> 6 \<longrightarrow>
               LogFailed (local_name key)
                 \<in> set (fst (process_one cfg w overwrite cleanup test))))"
proof -
  let ?run = "process_one cfg w overwrite cleanup test"
  let ?full = "map (\<lambda>f. (out_path @ ''/'' @ basename f, f)) out_files @ [(xml_key, xml_file)]"
  let ?ok = "snd (cleanup_dirs cfg w
      (fs_after (path_exists w) (fst (handle_item cfg w overwrite))) cleanup) = None"
  note run = process_one_unpacked [OF item fetched unpacked]
  note gate = handle_item_gate [OF described fresh transformed]
  have enough: "uploads (fst ?run) = ?full \<and> snd (handle_item cfg w overwrite) = Inr False
      \<and> (\<forall>n. LogIncomplete n \<notin> set (fst ?run)) \<and> LogFailed (local_name key) \<notin> set (fst ?run)
      \<and> (?ok \<longrightarrow> LogFinished \<in> set (fst ?run))"
    if "7 \<le> length out_files \<and> (\<forall>k. put_object w k)"
  proof -
    from that have pub: "snd (publish w out_path xml_file xml_key out_files) = None"
      by (simp add: publish_ok)
    have hi: "handle_item cfg w overwrite =
        (LoadObject xml_key # fst (transform cfg w)
           @ fst (publish w out_path xml_file xml_key out_files), Inr False)"
      using gate that pub by simp
    have "uploads (fst ?run) = ?full"
      using hi by (simp add: run fetch_quiet transform_quiet finish_quiet publish_done [OF pub])
    moreover have "snd (handle_item cfg w overwrite) = Inr False"
      by (simp add: hi)
    moreover have "LogIncomplete n \<notin> set (fst ?run)" for n
      using hi by (simp add: run no_incomplete finish_quiet)
    moreover have "LogFailed (local_name key) \<notin> set (fst ?run)"
      using hi by (simp add: run fetch_quiet transform_quiet publish_quiet finish_logs)
    moreover have "LogFinished \<in> set (fst ?run)" if ?ok
      using hi that by (simp add: run finish_logs)
    ultimately show ?thesis by blast
  qed
  have few: "uploads (fst ?run) = [] \<and> snd (handle_item cfg w overwrite) = Inr True
      \<and> LogIncomplete (length out_files) \<in> set (fst ?run) \<and> LogFinished \<notin> set (fst ?run)
      \<and> (?ok \<longrightarrow> LogFailed (local_name key) \<in> set (fst ?run))"
    if "length out_files \<le> 6"
  proof -
    have hi: "handle_item cfg w overwrite =
        (LoadObject xml_key # fst (transform cfg w) @ [LogIncomplete (length out_files)],
         Inr True)"
      using gate that by simp
    have "uploads (fst ?run) = []"
      using hi by (simp add: run fetch_quiet transform_quiet finish_quiet)
    moreover have "snd (handle_item cfg w overwrite) = Inr True"
      by (simp add: hi)
    moreover have "LogIncomplete (length out_files) \<in> set (fst ?run)"
      using hi by (simp add: run)
    moreover have "LogFinished \<notin> set (fst ?run)"
      using hi by (simp add: run fetch_quiet transform_quiet finish_logs)
    moreover have "LogFailed (local_name key) \<in> set (fst ?run)" if ?ok
      using hi that by (simp add: run finish_logs)
    ultimately show ?thesis by blast
  qed
  show ?thesis
    using enough few by blast
qed

text \<open>
  The gate on the scene with seven outputs and on the scene with six, both with the
  cleanup requested.
\<close>

theorem completeness_gate_witness:
  "uploads (fst (process_one scene_cfg scene False True False)) =
     map (\<lambda>f. (''test/LE07/021/048/2001/05/11'' @ ''/'' @ basename f, f)) scene_outputs
       @ [(''test/LE07/021/048/2001/05/11/LE07.xml'', ''data/download/LE07.xml'')]
   \<and> LogFinished \<in> set (fst (process_one scene_cfg scene False True False))
   \<and> length scene_outputs = 7
   \<and> uploads (fst (process_one scene_cfg scene_six False True False)) = []
   \<and> LogIncomplete 6 \<in> set (fst (process_one scene_cfg scene_six False True False))
   \<and> LogFailed ''LE07.tar.gz'' \<in> set (fst (process_one scene_cfg scene_six False True False))
   \<and> length (butlast scene_outputs) = 6"
proof -
  have unpacked: "tar_ok scene (local_name ''in/LE07.tar.gz'')"
    by (simp add: scene_def)
  have fresh: "check_processed scene ''test/LE07/021/048/2001/05/11/LE07.xml'' = Inr False"
    by (simp add: check_processed_def scene_def)
  have fetched: "snd (fetch scene_cfg scene ''in/LE07.tar.gz'') = None"
    by (simp add: scene_fetch)
  have stored: "\<forall>k. put_object scene k"
    by (simp add: scene_def)
  have seven: "length scene_outputs = 7"
    by (simp add: scene_outputs_def)
  have described6: "describe scene_cfg scene_six =
     Inr (''data/download/LE07.xml'', ''test/LE07/021/048/2001/05/11'',
          ''test/LE07/021/048/2001/05/11/LE07.xml'')"
    by (simp add: scene_six_describe scene_describe)
  show ?thesis
    using completeness_gate [OF scene_item fetched unpacked scene_describe fresh _
        scene_transform, where overwrite = False and cleanup = True]
      completeness_gate [OF scene_six_facts(1-3) described6 scene_six_facts(4) _
        scene_six_transform, where overwrite = False and cleanup = True]
      stored seven scene_name scene_cleanup [of False True] scene_six_cleanup [of False True]
    by simp
qed

section \<open>Metadata last\<close>

text \<open>
  Claim C2. The upload calls of any run of \<^verbatim>\<open>process_one\<close> are an initial segment of
  the list "one upload per output, in order, then the descriptor": no data upload ever
  follows the upload of the descriptor. In a run that publishes and logs success, the
  upload calls are that whole list, so every data upload precedes the single upload
  of the descriptor, which is the last object written.
\<close>

theorem metadata_last:
  assumes described: "describe cfg w = Inr (xml_file, out_path, xml_key)"
      and transformed: "snd (transform cfg w) = Inr out_files"
  shows "prefix (uploads (fst (process_one cfg w overwrite cleanup test)))
           (map (\<lambda>f. (out_path @ ''/'' @ basename f, f)) out_files @ [(xml_key, xml_file)])
       \<and> (LogFinished \<in> set (fst (process_one cfg w overwrite cleanup test))
            \<and> uploads (fst (process_one cfg w overwrite cleanup test)) \<noteq> [] \<longrightarrow>
          uploads (fst (process_one cfg w overwrite cleanup test)) =
            map (\<lambda>f. (out_path @ ''/'' @ basename f, f)) out_files @ [(xml_key, xml_file)])"
  using process_one_uploads [of cfg w overwrite cleanup test]
    handle_item_uploads [OF described transformed, where overwrite = overwrite]
  by auto

text \<open>On the scene every upload succeeds: eight uploads, the descriptor last.\<close>

theorem metadata_last_witness:
  "uploads (fst (process_one scene_cfg scene False True False)) =
     map (\<lambda>f. (''test/LE07/021/048/2001/05/11'' @ ''/'' @ basename f, f)) scene_outputs
       @ [(''test/LE07/021/048/2001/05/11/LE07.xml'', ''data/download/LE07.xml'')]
   \<and> last (uploads (fst (process_one scene_cfg scene False True False))) =
       (''test/LE07/021/048/2001/05/11/LE07.xml'', ''data/download/LE07.xml'')"
proof -
  have finished: "LogFinished \<in> set (fst (process_one scene_cfg scene False True False))"
    by (simp add: scene_run finish_logs scene_cleanup)
  have stored: "\<forall>k. put_object scene k"
    by (simp add: scene_def)
  have some: "uploads (fst (process_one scene_cfg scene False True False)) \<noteq> []"
    by (simp add: scene_run scene_handle_item fetch_quiet finish_quiet transform_quiet
          publish_done [OF publish_ok [OF stored]])
  show ?thesis
    using metadata_last [OF scene_describe scene_transform, of False True False] finished some
    by simp
qed

section \<open>The skip gate\<close>





section \<open>Acknowledgement after a soft failure\<close>





section \<open>A missing or malformed descriptor\<close>

text \<open>
  Claim C5, as amended. When the listing of the download workspace has no name that
  contains \<^verbatim>\<open>.xml\<close>, \<^verbatim>\<open>get_xmlfile\<close> returns \<^verbatim>\<open>None\<close> and raises nothing; joining the
  workspace path with it raises \<^verbatim>\<open>TypeError\<close>. Any exception of the descriptor stage
  (no descriptor, a descriptor that does not parse, a missing field) leaves
  \<^verbatim>\<open>process_one\<close> and reaches the caller: nothing is transformed or uploaded, no
  failure is logged, and the queue message is not deleted.
\<close>

theorem descriptor_failure_propagates:
  assumes item: "next_item w test = Some (msg, key)"
      and fetched: "snd (fetch cfg w key) = None"
      and unpacked: "tar_ok w (local_name key)"
  shows "(get_xmlfile (listdir w (WORKDIR cfg)) = None \<longrightarrow> describe cfg w = Inl TypeError)
       \<and> (\<forall>e. describe cfg w = Inl e \<longrightarrow>
            snd (process_one cfg w overwrite cleanup test) = Inl e
            \<and> uploads (fst (process_one cfg w overwrite cleanup test)) = []
            \<and> transforms (fst (process_one cfg w overwrite cleanup test)) = []
            \<and> deleted (fst (process_one cfg w overwrite cleanup test)) = []
            \<and> LogFailed (local_name key) \<notin> set (fst (process_one cfg w overwrite cleanup test)))"
  by (auto simp: describe_def process_one_unpacked [OF item fetched unpacked]
        handle_item_describe_fails fetch_quiet)

text \<open>The workspace without a descriptor: the theorem at that scene.\<close>

theorem descriptor_failure_propagates_witness:
  "describe scene_cfg scene_bare = Inl TypeError
   \<and> snd (process_one scene_cfg scene_bare False False False) = Inl TypeError
   \<and> uploads (fst (process_one scene_cfg scene_bare False False False)) = []
   \<and> deleted (fst (process_one scene_cfg scene_bare False False False)) = []"
proof -
  have item: "next_item scene_bare False
      = Some (Some (Message 1 ''in/LE07.tar.gz''), ''in/LE07.tar.gz'')"
    by (simp add: next_item_def scene_bare_def scene_def)
  have fetched: "snd (fetch scene_cfg scene_bare ''in/LE07.tar.gz'') = None"
    by (simp add: fetch_def scene_bare_def scene_def)
  have unpacked: "tar_ok scene_bare (local_name ''in/LE07.tar.gz'')"
    by (simp add: scene_bare_def scene_def)
  have none: "get_xmlfile (listdir scene_bare (WORKDIR scene_cfg)) = None"
    by (simp add: get_xmlfile_def scene_bare_def scene_def contains_def sublist_code)
  show ?thesis
    using descriptor_failure_propagates [OF item fetched unpacked, where overwrite = False
        and cleanup = False]
      none
    by simp
qed

text \<open>
  Claim C5 as it was stated fails. On the workspace without a descriptor the look-up
  returns \<^verbatim>\<open>None\<close>, and the run ends in \<^verbatim>\<open>TypeError\<close> after the download and the
  unpacking, with the queue message not deleted; on a descriptor that does not parse it
  ends in \<^verbatim>\<open>ParseError\<close> in the same way.
\<close>

theorem descriptor_soft_failure_counterexample:
  "get_xmlfile (listdir scene_bare (WORKDIR scene_cfg)) = None
   \<and> process_one scene_cfg scene_bare False False False =
       ([Download ''in/LE07.tar.gz'' ''data/download/LE07.tar.gz'', Untar ''LE07.tar.gz''],
        Inl TypeError)
   \<and> process_one scene_cfg scene_broken False False False =
       ([Download ''in/LE07.tar.gz'' ''data/download/LE07.tar.gz'', Untar ''LE07.tar.gz''],
        Inl ParseError)"
proof -
  have bare: "next_item scene_bare False
      = Some (Some (Message 1 ''in/LE07.tar.gz''), ''in/LE07.tar.gz'')"
    "fetch scene_cfg scene_bare ''in/LE07.tar.gz''
      = ([Download ''in/LE07.tar.gz'' ''data/download/LE07.tar.gz''], None)"
    "tar_ok scene_bare ''LE07.tar.gz''"
    by (simp_all add: next_item_def fetch_def scene_bare_def scene_defs path_defs)
  have broken: "next_item scene_broken False
      = Some (Some (Message 1 ''in/LE07.tar.gz''), ''in/LE07.tar.gz'')"
    "fetch scene_cfg scene_broken ''in/LE07.tar.gz''
      = ([Download ''in/LE07.tar.gz'' ''data/download/LE07.tar.gz''], None)"
    "tar_ok scene_broken ''LE07.tar.gz''"
    by (simp_all add: next_item_def fetch_def scene_broken_def scene_defs path_defs)
  have none: "get_xmlfile (listdir scene_bare (WORKDIR scene_cfg)) = None"
    by (simp add: get_xmlfile_def scene_bare_def scene_def contains_def sublist_code)
  show ?thesis
    by (simp add: none process_one_def Let_def bare broken scene_name
          handle_item_describe_fails [OF scene_bare_describe]
          handle_item_describe_fails [OF scene_broken_describe])
qed

section \<open>One transform per qualifying file\<close>

text \<open>
  Claim C8, as amended. In a run that reaches the transform and in which no transform
  raises, the transform calls are exactly one per qualifying file of the walk, in the
  order of the walk, and the output of each is the output directory joined with the
  last two slash-separated components of the input path (the name of the directory
  that holds the file, and the file name), not the path relative to the download
  workspace. The directory of every output exists beforehand or is created during
  the run, by a \<^verbatim>\<open>makedirs\<close> of it or of a directory below it.
\<close>

theorem transform_once_per_file:
  assumes item: "next_item w test = Some (msg, key)"
      and fetched: "snd (fetch cfg w key) = None"
      and unpacked: "tar_ok w (local_name key)"
      and described: "describe cfg w = Inr (xml_file, out_path, xml_key)"
      and fresh: "check_processed w xml_key = Inr processed" "overwrite \<or> \<not> processed"
      and converts: "\<forall>i out. cog_translate w i out"
  shows "transforms (fst (process_one cfg w overwrite cleanup test)) =
           map (\<lambda>(p, f). (join2 p f, join2 (abspath w (OUTDIR cfg)) (check_dir (join2 p f))))
             (filter (\<lambda>(p, f). qualifies f) (walk_files (walk w (abspath w (WORKDIR cfg)))))
       \<and> (\<forall>(i, out) \<in> set (transforms (fst (process_one cfg w overwrite cleanup test))).
            path_exists w (dirname out) \<or>
            (\<exists>d. Makedirs d \<in> set (fst (process_one cfg w overwrite cleanup test))
               \<and> (dirname out = d \<or> prefix (dirname out @ ''/'') d)))"
proof -
  let ?run = "process_one cfg w overwrite cleanup test"
  have tr: "transforms (fst ?run) = transforms (fst (transform cfg w))"
    by (cases "snd (handle_item cfg w overwrite)")
       (simp_all add: process_one_unpacked [OF item fetched unpacked] fetch_quiet finish_quiet
          handle_item_transforms [OF described fresh])
  have sub: "set (fst (transform cfg w)) \<subseteq> set (fst ?run)"
    using handle_item_transforms(2) [OF described fresh]
    by (cases "snd (handle_item cfg w overwrite)")
       (auto simp: process_one_unpacked [OF item fetched unpacked])
  have once: "transforms (fst ?run) =
      map (\<lambda>(p, f). (join2 p f, join2 (abspath w (OUTDIR cfg)) (check_dir (join2 p f))))
        (filter (\<lambda>(p, f). qualifies f) (walk_files (walk w (abspath w (WORKDIR cfg)))))"
    using transform_loop_all [OF converts] by (simp add: tr transform_def Let_def)
  have "path_exists w (dirname out) \<or>
      (\<exists>d. Makedirs d \<in> set (fst ?run) \<and> (dirname out = d \<or> prefix (dirname out @ ''/'') d))"
    if "(i, out) \<in> set (transforms (fst ?run))" for i out
    using that sub transform_loop_dirs [of i out w "abspath w (OUTDIR cfg)" "path_exists w"
        "walk_files (walk w (abspath w (WORKDIR cfg)))"]
    unfolding tr transform_def Let_def by blast
  then have dirs: "\<forall>(i, out) \<in> set (transforms (fst ?run)).
      path_exists w (dirname out) \<or>
      (\<exists>d. Makedirs d \<in> set (fst ?run) \<and> (dirname out = d \<or> prefix (dirname out @ ''/'') d))"
    by blast
  show ?thesis
    by (rule conjI [OF once dirs])
qed

text \<open>The seven transforms of the scene, and the directory made for them.\<close>

theorem transform_once_per_file_witness:
  "transforms (fst (process_one scene_cfg scene False False False)) =
     map (\<lambda>f. (''/app/data/download/'' @ f, ''/app/data/out/download/'' @ f))
       [''LE07_sr_band1.tif'', ''LE07_sr_band2.tif'', ''LE07_sr_band3.tif'',
        ''LE07_sr_band4.tif'', ''LE07_sr_band5.tif'', ''LE07_sr_band7.tif'',
        ''LE07_pixel_qa.tif'']
   \<and> (\<exists>d. Makedirs d \<in> set (fst (process_one scene_cfg scene False False False))
          \<and> prefix ''/app/data/out/download'' d)"
proof -
  have unpacked: "tar_ok scene (local_name ''in/LE07.tar.gz'')"
    by (simp add: scene_def)
  have fresh: "check_processed scene ''test/LE07/021/048/2001/05/11/LE07.xml'' = Inr False"
    by (simp add: check_processed_def scene_def)
  have fetched: "snd (fetch scene_cfg scene ''in/LE07.tar.gz'') = None"
    by (simp add: scene_fetch)
  have converts: "\<forall>i out. cog_translate scene i out"
    by (simp add: scene_def)
  have dir: "dirname ''/app/data/out/download/LE07_sr_band1.tif'' = ''/app/data/out/download''"
    by (simp add: dirname_def)
  have missing: "\<not> path_exists scene (dirname ''/app/data/out/download/LE07_sr_band1.tif'')"
    by (simp add: dir scene_def)
  note inst = transform_once_per_file [OF scene_item fetched unpacked scene_describe fresh _
      converts, where overwrite = False and cleanup = False]
  have first: "transforms (fst (process_one scene_cfg scene False False False)) =
     map (\<lambda>f. (''/app/data/download/'' @ f, ''/app/data/out/download/'' @ f))
       [''LE07_sr_band1.tif'', ''LE07_sr_band2.tif'', ''LE07_sr_band3.tif'',
        ''LE07_sr_band4.tif'', ''LE07_sr_band5.tif'', ''LE07_sr_band7.tif'',
        ''LE07_pixel_qa.tif'']"
    using inst
    by (simp add: scene_walk scene_qualifies) (simp add: scene_def scene_cfg_def path_defs)
  have "(''/app/data/download/LE07_sr_band1.tif'', ''/app/data/out/download/LE07_sr_band1.tif'')
      \<in> set (transforms (fst (process_one scene_cfg scene False False False)))"
    by (simp add: first)
  with inst obtain d where made: "Makedirs d \<in> set (fst (process_one scene_cfg scene False False False))"
    and below: "dirname ''/app/data/out/download/LE07_sr_band1.tif'' = d
          \<or> prefix (dirname ''/app/data/out/download/LE07_sr_band1.tif'' @ ''/'') d"
    using missing by blast
  from below have "prefix (dirname ''/app/data/out/download/LE07_sr_band1.tif'') d"
    by (auto dest: append_prefixD)
  then have "prefix ''/app/data/out/download'' d"
    by (simp only: dir)
  with made have "\<exists>d. Makedirs d \<in> set (fst (process_one scene_cfg scene False False False))
      \<and> prefix ''/app/data/out/download'' d"
    by blast
  with first show ?thesis
    by blast
qed

text \<open>
  Claim C8 as it was stated fails on the path of the output. A raster directly in the
  download workspace is written below a directory named after the workspace, and a
  raster two directories deep loses the upper directory; the mirrored path of the
  specification is a different one in both cases.
\<close>

theorem mirrored_path_counterexample:
  "hd (transforms (fst (process_one scene_cfg scene False False False))) =
     (''/app/data/download/LE07_sr_band1.tif'', ''/app/data/out/download/LE07_sr_band1.tif'')
   \<and> mirrored_path (abspath scene (WORKDIR scene_cfg)) (abspath scene (OUTDIR scene_cfg))
         ''/app/data/download/LE07_sr_band1.tif'' = ''/app/data/out/LE07_sr_band1.tif''
   \<and> fst (getfilename (\<lambda>_. False) ''/app/data/download/LE07/sr/band1_sr_.tif'' ''/app/data/out'')
       = ''/app/data/out/sr/band1_sr_.tif''
   \<and> mirrored_path ''/app/data/download'' ''/app/data/out''
         ''/app/data/download/LE07/sr/band1_sr_.tif'' = ''/app/data/out/LE07/sr/band1_sr_.tif''"
  by (simp add: scene_transforms scene_qualifies)
     (simp add: mirrored_path_def getfilename_def Let_def scene_def scene_cfg_def path_defs)

section \<open>Test mode\<close>

text \<open>
  Claim C10. With \<^verbatim>\<open>test=True\<close> the item is the hard-coded key and no message is kept,
  whatever the queue returned; the run never returns normally and never deletes a
  message; a run that reaches its closing log line ends in the \<^verbatim>\<open>AttributeError\<close> of
  \<^verbatim>\<open>message.delete()\<close> on \<^verbatim>\<open>None\<close>.
\<close>

theorem test_mode_never_completes:
  "next_item w True = Some (None, test_key)
   \<and> (\<exists>e. snd (process_one cfg w overwrite cleanup True) = Inl e)
   \<and> deleted (fst (process_one cfg w overwrite cleanup True)) = []
   \<and> (LogFinished \<in> set (fst (process_one cfg w overwrite cleanup True))
        \<or> LogFailed (local_name test_key) \<in> set (fst (process_one cfg w overwrite cleanup True))
      \<longrightarrow> snd (process_one cfg w overwrite cleanup True) = Inl AttributeError)"
proof -
  let ?run = "process_one cfg w overwrite cleanup True"
  let ?name = "local_name test_key"
  have item: "next_item w True = Some (None, test_key)"
    by (simp add: next_item_def)
  have closing: "(\<exists>e. snd (finish cfg w ex cleanup None ?name failed) = Inl e)
      \<and> deleted (fst (finish cfg w ex cleanup None ?name failed)) = []
      \<and> (LogFinished \<in> set (fst (finish cfg w ex cleanup None ?name failed))
           \<or> LogFailed ?name \<in> set (fst (finish cfg w ex cleanup None ?name failed))
          \<longrightarrow> snd (finish cfg w ex cleanup None ?name failed) = Inl AttributeError)"
    for ex failed
  proof (intro conjI impI)
    show "\<exists>e. snd (finish cfg w ex cleanup None ?name failed) = Inl e"
      by (rule finish_no_message(1))
    show "deleted (fst (finish cfg w ex cleanup None ?name failed)) = []"
      by (rule finish_no_message(2))
    show "snd (finish cfg w ex cleanup None ?name failed) = Inl AttributeError"
      if "LogFinished \<in> set (fst (finish cfg w ex cleanup None ?name failed))
        \<or> LogFailed ?name \<in> set (fst (finish cfg w ex cleanup None ?name failed))"
      using that by (rule finish_no_message(3))
  qed
  have "(\<exists>e. snd ?run = Inl e) \<and> deleted (fst ?run) = []
      \<and> (LogFinished \<in> set (fst ?run) \<or> LogFailed ?name \<in> set (fst ?run)
          \<longrightarrow> snd ?run = Inl AttributeError)"
  proof (cases "snd (fetch cfg w test_key)")
    case (Some e)
    then have "?run = (fst (fetch cfg w test_key), Inl e)"
      by (simp add: process_one_def item Let_def case_prod_beta)
    then show ?thesis
      by (simp add: fetch_quiet)
  next
    case None
    show ?thesis
    proof (cases "tar_ok w ?name")
      case False
      show ?thesis
        using closing [of "path_exists w" True]
        by (simp add: process_one_untar_failed [OF item None False] fetch_quiet)
    next
      case True
      show ?thesis
      proof (cases "snd (handle_item cfg w overwrite)")
        case (Inl e)
        then show ?thesis
          by (simp add: process_one_unpacked [OF item None True] fetch_quiet
                handle_item_deleted handle_item_logs)
      next
        case (Inr failed)
        then show ?thesis
          using closing [of "fs_after (path_exists w) (fst (handle_item cfg w overwrite))" failed]
          by (simp add: process_one_unpacked [OF item None True] fetch_quiet
                handle_item_deleted handle_item_logs)
      qed
    qed
  qed
  with item show ?thesis
    by blast
qed

text \<open>The scene in test mode reaches the closing log line and ends in the exception.\<close>

theorem test_mode_never_completes_witness:
  "LogFinished \<in> set (fst (process_one scene_cfg scene False False True))
   \<and> snd (process_one scene_cfg scene False False True) = Inl AttributeError
   \<and> deleted (fst (process_one scene_cfg scene False False True)) = []"
proof -
  have item: "next_item scene True = Some (None, test_key)"
    by (simp add: next_item_def)
  have fetched: "snd (fetch scene_cfg scene test_key) = None"
    by (simp add: fetch_def scene_def)
  have unpacked: "tar_ok scene (local_name test_key)"
    by (simp add: scene_def)
  have "LogFinished \<in> set (fst (process_one scene_cfg scene False False True))"
    by (simp add: process_one_unpacked [OF item fetched unpacked] scene_handle_item finish_logs
          cleanup_dirs_off)
  then show ?thesis
    using test_mode_never_completes [of scene scene_cfg False False]
    by simp
qed

section \<open>The queue refill utility stops one short\<close>

text \<open>
  Claim C6 says that \<^verbatim>\<open>get_items\<close> enqueues exactly \<open>LIMIT\<close> keys when at least that many
  match. The loop counts a match and leaves when the count has reached \<open>LIMIT\<close>, before
  it sends the message of that match: with one matching key and \<open>LIMIT = 1\<close> nothing is
  sent, and with three matching keys and \<open>LIMIT = 2\<close> only the first is sent. On one
  page of keys the loop sends the first \<open>LIMIT - 1\<close> matches
  (\<open>get_items_loop_one_page\<close>).
\<close>

theorem get_items_stops_one_short:
  "get_items (LastPage (Some [''in/a.tar.gz''])) 1 (Some ''.tar.gz'') = ([], None)
   \<and> get_items (LastPage (Some [''in/a.tar.gz'', ''in/readme.txt'', ''in/b.tar.gz'',
        ''in/c.tar.gz''])) 2 (Some ''.tar.gz'') = ([''in/a.tar.gz''], None)"
  by (simp add: get_items_def endswith_def contains_def sublist_code)

section \<open>The shape of the output key prefix\<close>





section \<open>Namespace tolerance\<close>

text \<open>
  Claim C9, as amended. Take a descriptor text in which \<^verbatim>\<open>xmlns="\<close> does not occur, and
  insert at any position one declaration written as a white-space character,
  \<^verbatim>\<open>xmlns="\<close>, a non-empty value without a double quote, and a double quote. The
  substitution of \<^verbatim>\<open>get_metadata\<close> removes exactly that declaration and leaves the text
  without it unchanged, so \<^verbatim>\<open>get_metadata\<close> returns the same result (the same metadata
  or the same exception) on both texts, whatever the parser does.
\<close>

theorem namespace_declaration_stripped:
  assumes blank: "is_space c"
      and uri: "uri \<noteq> []" "dquote \<notin> set uri"
      and plain: "\<not> contains xmlns_eq (pre @ post)"
  shows "re_sub_xmlns (pre @ c # xmlns_eq @ uri @ dquote # post) = pre @ post
       \<and> re_sub_xmlns (pre @ post) = pre @ post
       \<and> get_metadata (w\<lparr>read_file := (\<lambda>_. pre @ c # xmlns_eq @ uri @ dquote # post)\<rparr>) f
           = get_metadata (w\<lparr>read_file := (\<lambda>_. pre @ post)\<rparr>) f"
proof -
  from plain have pre: "\<not> sublist xmlns_eq pre"
    by (auto simp: contains_def sublist_append)
  have a: "re_sub_xmlns (pre @ c # xmlns_eq @ uri @ dquote # post) = pre @ post"
    by (rule re_sub_declaration [OF blank uri pre])
  have b: "re_sub_xmlns (pre @ post) = pre @ post"
    using plain by (simp add: contains_def re_sub_no_match)
  have "get_metadata (w\<lparr>read_file := (\<lambda>_. pre @ c # xmlns_eq @ uri @ dquote # post)\<rparr>) f
      = get_metadata (w\<lparr>read_file := (\<lambda>_. pre @ post)\<rparr>) f"
    by (rule get_metadata_text) (simp_all add: a b)
  with a b show ?thesis
    by simp
qed

text \<open>The descriptor of the scene, with and without its declaration.\<close>

theorem namespace_declaration_stripped_witness:
  "re_sub_xmlns (descriptor_text ('' xmlns='' @ quoted espa_uri)) = descriptor_text []
   \<and> get_metadata scene ''data/download/LE07.xml''
       = get_metadata scene_plain ''data/download/LE07.xml''"
proof -
  let ?pre = "''<espa_metadata''"
  let ?post = "''><global_metadata><satellite>LE07</satellite>''
     @ ''<acquisition_date>2001-05-11</acquisition_date><wrs path='' @ quoted ''021''
     @ '' row='' @ quoted ''048'' @ ''/></global_metadata></espa_metadata>''"
  have blank: "is_space CHR '' ''"
    by (simp add: is_space_def)
  have uri: "espa_uri \<noteq> []" "dquote \<notin> set espa_uri"
    by (simp_all add: espa_uri_def)
  have plain: "\<not> contains xmlns_eq (?pre @ ?post)"
    by (simp add: contains_def xmlns_eq_def quoted_def sublist_code)
  have declared: "?pre @ CHR '' '' # xmlns_eq @ espa_uri @ dquote # ?post
      = descriptor_text ('' xmlns='' @ quoted espa_uri)"
    by (simp add: descriptor_text_def xmlns_eq_def quoted_def)
  have bare: "?pre @ ?post = descriptor_text []"
    by (simp add: descriptor_text_def)
  have same: "scene\<lparr>read_file := (\<lambda>_. descriptor_text ('' xmlns='' @ quoted espa_uri))\<rparr> = scene"
    by (simp add: scene_def)
  show ?thesis
    using namespace_declaration_stripped [OF blank uri plain, where w = scene
        and f = "''data/download/LE07.xml''"]
    unfolding declared bare same scene_plain_def by simp
qed

text \<open>
  Claim C9 as it was stated fails for a declaration that the pattern does not match.
  With the namespace declared in single quotes nothing is removed, the parser qualifies
  every tag, \<^verbatim>\<open>doc.find('.//satellite')\<close> finds nothing and \<^verbatim>\<open>get_metadata\<close> raises
  \<^verbatim>\<open>AttributeError\<close>; the same content without the declaration gives the metadata.
\<close>

theorem namespace_tolerance_counterexample:
  "get_metadata scene_single_quoted ''data/download/LE07.xml'' = Inl AttributeError
   \<and> get_metadata scene_plain ''data/download/LE07.xml'' =
       Inr \<lparr>datetime = \<lparr>year = 2001, month = 5, day = 11\<rparr>, satellite = Some ''LE07'',
            path = ''021'', row = ''048''\<rparr>"
  by (simp add: get_metadata_def scene_single_quoted_def scene_plain_def scene_defs
        match_xmlns_def xmlns_eq_def is_space_def find_descendant_def find_child_def)

end
